theory Spec2Isabelle
  imports Main "HOL-Library.Word" "HOL-Library.AList" "HOL-Library.List_Lexorder"
    "HOL-Library.Char_ord"
begin

section \<open>Data model of package model (and of the two gopflow types it uses)\<close>

text \<open>
  Go's \<open>uint64\<close> and \<open>int64\<close> are both 64-bit words; the conversion \<open>int64(x)\<close> keeps the
  bits, so it is the identity here and \<open>0 - int64(w)\<close> is word negation. \<open>unat\<close> reads a
  word as the \<open>uint64\<close>, \<open>sint\<close> as the \<open>int64\<close>.
\<close>

type_synonym uint64 = "64 word"
type_synonym int64 = "64 word"

datatype nodeType = PLACE | TRANSITION

datatype arcType = ARC | INHIBITOR

text \<open>
  \<open>varType\<close> is an unexported integer type with these three constants and no other
  value in the package, so the \<open>default\<close> case of the switch in \<open>StateMachine\<close>
  (\<open>panic("Unknown Type")\<close>) cannot be reached and has no error value.
\<close>

datatype varType = InitialVar | WeightVar | CapacityVar

text \<open>
  Every panic of the source is an error value. The first six are the explicit
  \<open>panic(...)\<close> calls, named after their messages; \<open>NilPointer\<close> and
  \<open>IndexOutOfRange\<close> are the run-time panics of a nil dereference (or a call of a nil
  function value) and of an index outside a slice; \<open>JsonError\<close> is the error returned by
  \<open>json.Unmarshal\<close>.
\<close>

datatype error =
    FrozenModelCannotBeAltered
  | ExpectedFrozenModel
  | BadArcDeclaration
  | InhibitorArcsMustTargetTransitions
  | BadDslVar
  | Unbound
  | NilPointer
  | IndexOutOfRange
  | JsonError

text \<open>
  \<open>ptnet.Place\<close> and \<open>statemachine.Transition\<close> belong to another module; only the
  fields this package reads or writes are modelled. \<open>Offset\<close> and \<open>VectorSize\<close> are Go
  \<open>int\<close>s that only ever count upwards from 0, so they are naturals. \<open>Delta\<close> is a
  slice: the address of its backing array in the heap, \<open>None\<close> for the nil slice. The
  code creates slices only with \<open>make\<close>, so a slice always spans its whole array.
\<close>

record ptnet_Place =
  Initial :: uint64
  Capacity :: uint64
  Offset :: nat

record statemachine_Transition =
  Role :: string
  Delta :: "nat option"

text \<open>
  A \<open>Node\<close> embeds \<open>*ptnet.Place\<close> and \<open>*statemachine.Transition\<close>: addresses of cells
  in the heap, \<open>None\<close> for nil. \<open>arcFactory\<close> is either nil (\<open>False\<close>) or the owning
  model's \<open>AppendArc\<close> (\<open>True\<close>). An \<open>Arc\<close> points to its two nodes; the package never
  writes to a node once it is made, so the arc holds them by value.
\<close>

record Node =
  Label :: string
  arcFactory :: bool
  nodeType :: nodeType
  Place_ptr :: "nat option"
  Transition_ptr :: "nat option"

record Arc =
  Source :: Node
  Target :: Node
  Weight :: uint64
  Type :: arcType

text \<open>
  \<open>VarMap\<close> embeds \<open>Ref\<close> (fields \<open>Target\<close>, \<open>Source\<close>). \<open>binding\<close> is a
  \<open>func() uint64\<close>: \<open>None\<close> is nil, \<open>Some x\<close> a function that returns \<open>x\<close> when the
  overlay calls it. The inert fields (\<open>Coords\<close>, \<open>Label\<close>, \<open>Offset\<close>,
  \<open>Description\<close>) are left out.
\<close>

record VarMap =
  Ref_Target :: string
  Ref_Source :: string
  binding :: "uint64 option"
  varType :: varType

text \<open>
  A Go map is an association list with \<open>map_of\<close> as lookup and \<open>AList.update\<close> as
  assignment (so every key occurs once); Go ranges over a map in an unspecified order,
  here it is the order of first insertion, which only decides the addresses \<open>Freeze\<close>
  hands out. \<open>Places\<close> and \<open>Transitions\<close> hold pointers: addresses into the heap. Both
  maps are made by \<open>New\<close> and every entry is the address of a cell; a nil map and a nil
  entry are not represented. \<open>vars\<close> is a slice of pointers to \<open>VarMap\<close>s that nothing
  else refers to, so it holds them by value and a builder handle is an index into it.
\<close>

record MetaModel =
  Schema :: string
  Places :: "(string \<times> nat) list"
  Transitions :: "(string \<times> nat) list"
  VectorSize :: nat
  vars :: "VarMap list"
  arcs :: "Arc list"
  frozen :: bool

text \<open>The heap: the cells pointers refer to, and the backing arrays of the slices.\<close>

record heap =
  place_cells :: "ptnet_Place list"
  transition_cells :: "statemachine_Transition list"
  delta_arrays :: "int64 list list"

text \<open>\<open>ptnet.PTNet\<close>: both maps hold values, not pointers.\<close>

record ptnet_PTNet =
  net_Places :: "(string \<times> ptnet_Place) list"
  net_Transitions :: "(string \<times> statemachine_Transition) list"

definition empty_heap :: heap where
  "empty_heap = \<lparr>place_cells = [], transition_cells = [], delta_arrays = []\<rparr>"

text \<open>
  Following a pointer. Go has no dangling pointers: an address outside the heap is no
  state of the program, and the model answers it like nil.
\<close>

definition deref :: "'a list \<Rightarrow> nat \<Rightarrow> error + 'a" where
  "deref cells p = (if p < length cells then Inr (cells ! p) else Inl NilPointer)"

definition deref_ptr :: "'a list \<Rightarrow> nat option \<Rightarrow> error + 'a" where
  "deref_ptr cells po = (case po of None \<Rightarrow> Inl NilPointer | Some p \<Rightarrow> deref cells p)"

section \<open>Nodes and the arc ledger\<close>

definition Node_IsTransition :: "Node \<Rightarrow> bool" where
  "Node_IsTransition n = (nodeType n = TRANSITION)"

definition Node_IsPlace :: "Node \<Rightarrow> bool" where
  "Node_IsPlace n = (nodeType n = PLACE)"

definition MetaModel_IsFrozen :: "MetaModel \<Rightarrow> bool" where
  "MetaModel_IsFrozen m = (frozen m = True)"

definition MetaModel_assertNotFrozen :: "MetaModel \<Rightarrow> error + unit" where
  "MetaModel_assertNotFrozen m = (if frozen m then Inl FrozenModelCannotBeAltered else Inr ())"

definition MetaModel_AssertFrozen :: "MetaModel \<Rightarrow> error + unit" where
  "MetaModel_AssertFrozen m = (if \<not> frozen m then Inl ExpectedFrozenModel else Inr ())"

definition MetaModel_AppendArc :: "Arc \<Rightarrow> MetaModel \<Rightarrow> MetaModel" where
  "MetaModel_AppendArc a m = m\<lparr>arcs := arcs m @ [a]\<rparr>"

text \<open>\<open>n.arcFactory(...)\<close> is a call through a function value: nil panics.\<close>

definition Node_arcFactory :: "Node \<Rightarrow> Arc \<Rightarrow> MetaModel \<Rightarrow> error + MetaModel" where
  "Node_arcFactory n a m = (if arcFactory n then Inr (MetaModel_AppendArc a m) else Inl NilPointer)"

definition Node_TX :: "Node \<Rightarrow> uint64 \<Rightarrow> Node \<Rightarrow> MetaModel \<Rightarrow> error + MetaModel" where
  "Node_TX n val cell m =
     Node_arcFactory n \<lparr>Source = n, Target = cell, Weight = val, Type = ARC\<rparr> m"

definition Node_Inhibitor :: "Node \<Rightarrow> uint64 \<Rightarrow> Node \<Rightarrow> MetaModel \<Rightarrow> error + MetaModel" where
  "Node_Inhibitor n weight target m =
     (if Node_IsTransition n \<or> Node_IsPlace target then Inl InhibitorArcsMustTargetTransitions
      else Node_arcFactory n \<lparr>Source = n, Target = target, Weight = weight, Type = INHIBITOR\<rparr> m)"

section \<open>The node registry\<close>

definition New :: "string \<Rightarrow> MetaModel" where
  "New schema =
     \<lparr>Schema = schema, Places = [], Transitions = [], VectorSize = 0, vars = [], arcs = [],
      frozen = False\<rparr>"

text \<open>
  \<open>Place\<close> works on its parameter, a copy of the caller's struct, and stores the copy's
  address both in the map and in the returned node: one fresh cell.
\<close>

definition MetaModel_Place ::
  "string \<Rightarrow> ptnet_Place \<Rightarrow> MetaModel \<Rightarrow> heap \<Rightarrow> error + (Node \<times> MetaModel \<times> heap)" where
  "MetaModel_Place label place m h =
     (case MetaModel_assertNotFrozen m of
        Inl e \<Rightarrow> Inl e
      | Inr _ \<Rightarrow>
          let ptr = length (place_cells h) in
          Inr (\<lparr>Label = label, arcFactory = True, nodeType = PLACE, Place_ptr = Some ptr,
                Transition_ptr = None\<rparr>,
               m\<lparr>VectorSize := VectorSize m + 1,
                 Places := AList.update label ptr (Places m)\<rparr>,
               h\<lparr>place_cells := place_cells h @ [place\<lparr>Offset := VectorSize m\<rparr>]\<rparr>))"

definition MetaModel_Transition ::
  "string \<Rightarrow> statemachine_Transition \<Rightarrow> MetaModel \<Rightarrow> heap \<Rightarrow> error + (Node \<times> MetaModel \<times> heap)" where
  "MetaModel_Transition label transition m h =
     (case MetaModel_assertNotFrozen m of
        Inl e \<Rightarrow> Inl e
      | Inr _ \<Rightarrow>
          let ptr = length (transition_cells h) in
          Inr (\<lparr>Label = label, arcFactory = True, nodeType = TRANSITION, Place_ptr = None,
                Transition_ptr = Some ptr\<rparr>,
               m\<lparr>Transitions := AList.update label ptr (Transitions m)\<rparr>,
               h\<lparr>transition_cells := transition_cells h @ [transition]\<rparr>))"

definition MetaModel_Role :: "string \<Rightarrow> MetaModel \<Rightarrow> error + string" where
  "MetaModel_Role label m =
     (case MetaModel_assertNotFrozen m of Inl e \<Rightarrow> Inl e | Inr _ \<Rightarrow> Inr label)"

text \<open>A sequence of \<open>Place\<close> calls, returning the handles in call order.\<close>

fun declare_places ::
  "(string \<times> ptnet_Place) list \<Rightarrow> MetaModel \<Rightarrow> heap \<Rightarrow> error + (Node list \<times> MetaModel \<times> heap)" where
  "declare_places [] m h = Inr ([], m, h)"
| "declare_places ((label, place) # ds) m h =
     (case MetaModel_Place label place m h of
        Inl e \<Rightarrow> Inl e
      | Inr (n, m1, h1) \<Rightarrow>
          (case declare_places ds m1 h1 of
             Inl e \<Rightarrow> Inl e
           | Inr (ns, m2, h2) \<Rightarrow> Inr (n # ns, m2, h2)))"

section \<open>Freeze\<close>

text \<open>
  First loop of \<open>Freeze\<close>: every transition of the map gets a fresh zero-filled array
  (\<open>t.Delta = make([]int64, m.VectorSize)\<close>, written through the pointer; storing the
  same pointer back under its key changes nothing). There is no test of \<open>frozen\<close>.
\<close>

fun Freeze_alloc :: "nat \<Rightarrow> (string \<times> nat) list \<Rightarrow> heap \<Rightarrow> error + heap" where
  "Freeze_alloc n [] h = Inr h"
| "Freeze_alloc n ((k, t) # kts) h =
     (case deref (transition_cells h) t of
        Inl e \<Rightarrow> Inl e
      | Inr tr \<Rightarrow>
          Freeze_alloc n kts
            (h\<lparr>transition_cells := (transition_cells h)[t := tr\<lparr>Delta := Some (length (delta_arrays h))\<rparr>],
               delta_arrays := delta_arrays h @ [replicate n 0]\<rparr>))"

text \<open>
  The slot \<open>s[i]\<close> of a slice \<open>s\<close>: array address and index, or the index panic (always,
  for the nil slice).
\<close>

definition slice_slot :: "heap \<Rightarrow> nat option \<Rightarrow> nat \<Rightarrow> error + (nat \<times> nat)" where
  "slice_slot h s i =
     (case s of
        None \<Rightarrow> Inl IndexOutOfRange
      | Some d \<Rightarrow>
          if d < length (delta_arrays h) \<and> i < length (delta_arrays h ! d) then Inr (d, i)
          else Inl IndexOutOfRange)"

text \<open>The slot \<open>t.Transition.Delta[p.Offset]\<close> for nodes \<open>t\<close> and \<open>p\<close>.\<close>

definition delta_slot :: "heap \<Rightarrow> Node \<Rightarrow> Node \<Rightarrow> error + (nat \<times> nat)" where
  "delta_slot h t p =
     (case deref_ptr (transition_cells h) (Transition_ptr t) of
        Inl e \<Rightarrow> Inl e
      | Inr tr \<Rightarrow>
          (case deref_ptr (place_cells h) (Place_ptr p) of
             Inl e \<Rightarrow> Inl e
           | Inr pl \<Rightarrow> slice_slot h (Delta tr) (Offset pl)))"

definition store_slot :: "nat \<times> nat \<Rightarrow> int64 \<Rightarrow> heap \<Rightarrow> heap" where
  "store_slot s v h =
     h\<lparr>delta_arrays := (delta_arrays h)[fst s := (delta_arrays h ! fst s)[snd s := v]]\<rparr>"

definition load_slot :: "heap \<Rightarrow> nat \<times> nat \<Rightarrow> int64" where
  "load_slot h s = delta_arrays h ! fst s ! snd s"

text \<open>Body of the second loop of \<open>Freeze\<close>, for one arc of the ledger.\<close>

definition Freeze_arc :: "Arc \<Rightarrow> heap \<Rightarrow> error + heap" where
  "Freeze_arc a h =
     (if Node_IsPlace (Source a) \<and> Node_IsTransition (Target a) then
        (case delta_slot h (Target a) (Source a) of
           Inl e \<Rightarrow> Inl e
         | Inr s \<Rightarrow> Inr (store_slot s (0 - Weight a) h))
      else if Node_IsPlace (Target a) \<and> Node_IsTransition (Source a) then
        (case delta_slot h (Source a) (Target a) of
           Inl e \<Rightarrow> Inl e
         | Inr s \<Rightarrow> Inr (store_slot s (Weight a) h))
      else Inl BadArcDeclaration)"

fun Freeze_arcs :: "Arc list \<Rightarrow> heap \<Rightarrow> error + heap" where
  "Freeze_arcs [] h = Inr h"
| "Freeze_arcs (a # as) h =
     (case Freeze_arc a h of Inl e \<Rightarrow> Inl e | Inr h1 \<Rightarrow> Freeze_arcs as h1)"

definition MetaModel_Freeze :: "MetaModel \<Rightarrow> heap \<Rightarrow> error + (MetaModel \<times> heap)" where
  "MetaModel_Freeze m h =
     (case Freeze_alloc (VectorSize m) (Transitions m) h of
        Inl e \<Rightarrow> Inl e
      | Inr h1 \<Rightarrow>
          (case Freeze_arcs (arcs m) h1 of
             Inl e \<Rightarrow> Inl e
           | Inr h2 \<Rightarrow> Inr (m\<lparr>frozen := True\<rparr>, h2)))"

section \<open>Export\<close>

text \<open>\<open>n.Places[k] = *v\<close> for every entry: the cells are copied out of the heap.\<close>

fun copy_cells :: "'a list \<Rightarrow> (string \<times> nat) list \<Rightarrow> error + (string \<times> 'a) list" where
  "copy_cells cells [] = Inr []"
| "copy_cells cells ((k, p) # kps) =
     (case deref cells p of
        Inl e \<Rightarrow> Inl e
      | Inr c \<Rightarrow>
          (case copy_cells cells kps of Inl e \<Rightarrow> Inl e | Inr r \<Rightarrow> Inr ((k, c) # r)))"

definition MetaModel_PTNet :: "MetaModel \<Rightarrow> heap \<Rightarrow> error + (ptnet_PTNet \<times> MetaModel \<times> heap)" where
  "MetaModel_PTNet m h =
     (case (if frozen m \<noteq> True then MetaModel_Freeze m h else Inr (m, h)) of
        Inl e \<Rightarrow> Inl e
      | Inr (m1, h1) \<Rightarrow>
          (case copy_cells (place_cells h1) (Places m1) of
             Inl e \<Rightarrow> Inl e
           | Inr ps \<Rightarrow>
               (case copy_cells (transition_cells h1) (Transitions m1) of
                  Inl e \<Rightarrow> Inl e
                | Inr ts \<Rightarrow> Inr (\<lparr>net_Places = ps, net_Transitions = ts\<rparr>, m1, h1))))"

section \<open>Variables and the overlay\<close>

definition NewVar :: VarMap where
  "NewVar = \<lparr>Ref_Target = [], Ref_Source = [], binding = None, varType = InitialVar\<rparr>"

definition MetaModel_NewVar :: "MetaModel \<Rightarrow> nat \<times> MetaModel" where
  "MetaModel_NewVar m = (length (vars m), m\<lparr>vars := vars m @ [NewVar]\<rparr>)"

definition VarMap_Type :: "VarMap \<Rightarrow> varType" where
  "VarMap_Type v = varType v"

definition VarMap_Capacity :: "string \<Rightarrow> VarMap \<Rightarrow> VarMap" where
  "VarMap_Capacity t v = v\<lparr>varType := CapacityVar, Ref_Source := t\<rparr>"

definition VarMap_Initial :: "string \<Rightarrow> VarMap \<Rightarrow> VarMap" where
  "VarMap_Initial t v = v\<lparr>varType := InitialVar, Ref_Target := t\<rparr>"

text \<open>\<open>Weight(n ...string)\<close> reads \<open>n[0]\<close> and \<open>n[1]\<close>.\<close>

definition VarMap_Weight :: "string list \<Rightarrow> VarMap \<Rightarrow> error + VarMap" where
  "VarMap_Weight n v =
     (case n of
        a # b # _ \<Rightarrow> Inr (v\<lparr>varType := WeightVar, Ref_Source := a, Ref_Target := b\<rparr>)
      | _ \<Rightarrow> Inl IndexOutOfRange)"

definition VarMap_Bind :: "uint64 \<Rightarrow> VarMap \<Rightarrow> VarMap" where
  "VarMap_Bind x v = v\<lparr>binding := Some x\<rparr>"

definition VarMap_GetVal :: "VarMap \<Rightarrow> error + uint64" where
  "VarMap_GetVal v = (case binding v of None \<Rightarrow> Inl Unbound | Some x \<Rightarrow> Inr x)"

text \<open>A builder method called through the handle returned by \<open>NewVar\<close>.\<close>

definition update_var :: "nat \<Rightarrow> (VarMap \<Rightarrow> VarMap) \<Rightarrow> MetaModel \<Rightarrow> MetaModel" where
  "update_var i f m = m\<lparr>vars := (vars m)[i := f (vars m ! i)]\<rparr>"

definition assertOK :: "'a option \<Rightarrow> error + 'a" where
  "assertOK r = (case r of None \<Rightarrow> Inl BadDslVar | Some x \<Rightarrow> Inr x)"

text \<open>
  \<open>t.Delta[p.Offset] = x\<close> on a transition value \<open>t\<close> of the net: the right-hand side was
  evaluated before, the index check comes with the store.
\<close>

definition store_delta :: "statemachine_Transition \<Rightarrow> nat \<Rightarrow> int64 \<Rightarrow> heap \<Rightarrow> error + heap" where
  "store_delta t i x h =
     (case slice_slot h (Delta t) i of Inl e \<Rightarrow> Inl e | Inr s \<Rightarrow> Inr (store_slot s x h))"

text \<open>Body of the loop of \<open>StateMachine\<close>, for one variable.\<close>

definition StateMachine_var :: "VarMap \<Rightarrow> ptnet_PTNet \<Rightarrow> heap \<Rightarrow> error + (ptnet_PTNet \<times> heap)" where
  "StateMachine_var v net h =
     (case VarMap_Type v of
        CapacityVar \<Rightarrow>
          (case assertOK (map_of (net_Places net) (Ref_Source v)) of
             Inl e \<Rightarrow> Inl e
           | Inr p \<Rightarrow>
               (case VarMap_GetVal v of
                  Inl e \<Rightarrow> Inl e
                | Inr x \<Rightarrow>
                    Inr (net\<lparr>net_Places :=
                           AList.update (Ref_Source v) (p\<lparr>Capacity := x\<rparr>) (net_Places net)\<rparr>, h)))
      | WeightVar \<Rightarrow>
          (case map_of (net_Transitions net) (Ref_Source v) of
             None \<Rightarrow>
               (case assertOK (map_of (net_Transitions net) (Ref_Target v)) of
                  Inl e \<Rightarrow> Inl e
                | Inr t \<Rightarrow>
                    (case assertOK (map_of (net_Places net) (Ref_Source v)) of
                       Inl e \<Rightarrow> Inl e
                     | Inr p \<Rightarrow>
                         (case VarMap_GetVal v of
                            Inl e \<Rightarrow> Inl e
                          | Inr x \<Rightarrow>
                              (case store_delta t (Offset p) (0 - x) h of
                                 Inl e \<Rightarrow> Inl e
                               | Inr h1 \<Rightarrow>
                                   Inr (net\<lparr>net_Transitions :=
                                          AList.update (Ref_Target v) t (net_Transitions net)\<rparr>,
                                        h1)))))
           | Some t \<Rightarrow>
               (case assertOK (map_of (net_Places net) (Ref_Target v)) of
                  Inl e \<Rightarrow> Inl e
                | Inr p \<Rightarrow>
                    (case VarMap_GetVal v of
                       Inl e \<Rightarrow> Inl e
                     | Inr x \<Rightarrow>
                         (case store_delta t (Offset p) (0 + x) h of
                            Inl e \<Rightarrow> Inl e
                          | Inr h1 \<Rightarrow>
                              Inr (net\<lparr>net_Transitions :=
                                     AList.update (Ref_Source v) t (net_Transitions net)\<rparr>,
                                   h1)))))
      | InitialVar \<Rightarrow>
          (case assertOK (map_of (net_Places net) (Ref_Target v)) of
             Inl e \<Rightarrow> Inl e
           | Inr p \<Rightarrow>
               (case VarMap_GetVal v of
                  Inl e \<Rightarrow> Inl e
                | Inr x \<Rightarrow>
                    Inr (net\<lparr>net_Places :=
                           AList.update (Ref_Target v) (p\<lparr>Initial := x\<rparr>) (net_Places net)\<rparr>, h))))"

fun StateMachine_vars :: "VarMap list \<Rightarrow> ptnet_PTNet \<Rightarrow> heap \<Rightarrow> error + (ptnet_PTNet \<times> heap)" where
  "StateMachine_vars [] net h = Inr (net, h)"
| "StateMachine_vars (v # vs) net h =
     (case StateMachine_var v net h of
        Inl e \<Rightarrow> Inl e
      | Inr (net1, h1) \<Rightarrow> StateMachine_vars vs net1 h1)"

text \<open>
  \<open>(*instance).StateMachine\<close>; an \<open>instance\<close> is its embedded \<open>*MetaModel\<close> (and a copy of
  the schema name). The result is the overlaid net, which the source hands to gopflow's
  \<open>net.StateMachine()\<close>.
\<close>

definition instance_StateMachine ::
  "MetaModel \<Rightarrow> heap \<Rightarrow> error + (ptnet_PTNet \<times> MetaModel \<times> heap)" where
  "instance_StateMachine m h =
     (case MetaModel_Freeze m h of
        Inl e \<Rightarrow> Inl e
      | Inr (m1, h1) \<Rightarrow>
          (case MetaModel_PTNet m1 h1 of
             Inl e \<Rightarrow> Inl e
           | Inr (net, m2, h2) \<Rightarrow>
               (case StateMachine_vars (vars m2) net h2 of
                  Inl e \<Rightarrow> Inl e
                | Inr (net1, h3) \<Rightarrow> Inr (net1, m2, h3))))"

section \<open>Serialisation\<close>

text \<open>
  What \<open>json.Marshal(m)\<close> encodes: the fields of \<open>MetaModel\<close> that are exported and not
  tagged \<open>json:"-"\<close> (\<open>Schema\<close>, \<open>Places\<close>, \<open>Transitions\<close>), with every pointer and
  slice followed. A document lists the entries of a map in the order of the model's
  list. \<open>encoding/json\<close> itself is not part of the repository and is a parameter:
  \<open>json_enc\<close> renders a document as a payload, \<open>json_dec\<close> parses a payload.
  \<open>ToAny\<close> has no error of its own; the model's \<open>Inl\<close> is the answer to an address
  outside the heap.
\<close>

record json_Transition =
  j_Role :: string
  j_Delta :: "int64 list option"

record document =
  d_schema :: string
  d_places :: "(string \<times> ptnet_Place) list"
  d_transitions :: "(string \<times> json_Transition) list"

definition encode_transition :: "heap \<Rightarrow> statemachine_Transition \<Rightarrow> error + json_Transition" where
  "encode_transition h t =
     (case Delta t of
        None \<Rightarrow> Inr \<lparr>j_Role = Role t, j_Delta = None\<rparr>
      | Some d \<Rightarrow>
          (case deref (delta_arrays h) d of
             Inl e \<Rightarrow> Inl e
           | Inr xs \<Rightarrow> Inr \<lparr>j_Role = Role t, j_Delta = Some xs\<rparr>))"

fun encode_transitions :: "heap \<Rightarrow> (string \<times> nat) list \<Rightarrow> error + (string \<times> json_Transition) list" where
  "encode_transitions h [] = Inr []"
| "encode_transitions h ((k, p) # kps) =
     (case deref (transition_cells h) p of
        Inl e \<Rightarrow> Inl e
      | Inr t \<Rightarrow>
          (case encode_transition h t of
             Inl e \<Rightarrow> Inl e
           | Inr j \<Rightarrow>
               (case encode_transitions h kps of Inl e \<Rightarrow> Inl e | Inr r \<Rightarrow> Inr ((k, j) # r))))"

definition document_of :: "MetaModel \<Rightarrow> heap \<Rightarrow> error + document" where
  "document_of m h =
     (case copy_cells (place_cells h) (Places m) of
        Inl e \<Rightarrow> Inl e
      | Inr ps \<Rightarrow>
          (case encode_transitions h (Transitions m) of
             Inl e \<Rightarrow> Inl e
           | Inr ts \<Rightarrow> Inr \<lparr>d_schema = Schema m, d_places = ps, d_transitions = ts\<rparr>))"

definition MetaModel_ToAny :: "(document \<Rightarrow> 'p) \<Rightarrow> MetaModel \<Rightarrow> heap \<Rightarrow> error + 'p" where
  "MetaModel_ToAny json_enc m h =
     (case document_of m h of Inl e \<Rightarrow> Inl e | Inr d \<Rightarrow> Inr (json_enc d))"







text \<open>\<open>(*instance).Marshal\<close>.\<close>

definition instance_Marshal ::
  "(document \<Rightarrow> 'p) \<Rightarrow> MetaModel \<Rightarrow> heap \<Rightarrow> error + ('p \<times> MetaModel \<times> heap)" where
  "instance_Marshal json_enc m h =
     (case (if \<not> MetaModel_IsFrozen m then MetaModel_Freeze m h else Inr (m, h)) of
        Inl e \<Rightarrow> Inl e
      | Inr (m1, h1) \<Rightarrow>
          (case MetaModel_AssertFrozen m1 of
             Inl e \<Rightarrow> Inl e
           | Inr _ \<Rightarrow>
               (case MetaModel_ToAny json_enc m1 h1 of
                  Inl e \<Rightarrow> Inl e
                | Inr n \<Rightarrow> Inr (n, m1, h1))))"

section \<open>Notions used in the statements\<close>

text \<open>
  How the loop of \<open>Freeze\<close> reads an arc: the transition node and the place node, the
  value it stores, and the pair of cells (place, transition) the arc joins.
\<close>

definition arc_nodes :: "Arc \<Rightarrow> (Node \<times> Node) option" where
  "arc_nodes a =
     (if Node_IsPlace (Source a) \<and> Node_IsTransition (Target a) then Some (Target a, Source a)
      else if Node_IsPlace (Target a) \<and> Node_IsTransition (Source a) then Some (Source a, Target a)
      else None)"

definition arc_value :: "Arc \<Rightarrow> int64" where
  "arc_value a =
     (if Node_IsPlace (Source a) \<and> Node_IsTransition (Target a) then 0 - Weight a else Weight a)"

definition arc_pair :: "Arc \<Rightarrow> (nat option \<times> nat option) option" where
  "arc_pair a = map_option (\<lambda>(t, p). (Place_ptr p, Transition_ptr t)) (arc_nodes a)"

text \<open>
  The slot an arc resolves to in a heap (\<open>None\<close> where \<open>Freeze\<close> panics), and what one
  arc of the ledger does to the array at address \<open>d\<close>.
\<close>

definition arc_slot :: "heap \<Rightarrow> Arc \<Rightarrow> (nat \<times> nat) option" where
  "arc_slot g a =
     (case arc_nodes a of
        None \<Rightarrow> None
      | Some (t, p) \<Rightarrow> (case delta_slot g t p of Inl e \<Rightarrow> None | Inr s \<Rightarrow> Some s))"

definition write_to :: "heap \<Rightarrow> nat \<Rightarrow> int64 list \<Rightarrow> Arc \<Rightarrow> int64 list" where
  "write_to g d xs a =
     (case arc_slot g a of
        None \<Rightarrow> xs
      | Some s \<Rightarrow> if fst s = d then xs[snd s := arc_value a] else xs)"

text \<open>
  The contents of the delta of a transition cell, and the heaps in which every slice
  points to an array that exists (Go has no other slices).
\<close>

definition delta_vector :: "heap \<Rightarrow> nat \<Rightarrow> int64 list option" where
  "delta_vector g c =
     (case Delta (transition_cells g ! c) of
        None \<Rightarrow> None
      | Some d \<Rightarrow> Some (delta_arrays g ! d))"

definition heap_ok :: "heap \<Rightarrow> bool" where
  "heap_ok g =
     (\<forall>t\<in>set (transition_cells g). \<forall>d. Delta t = Some d \<longrightarrow> d < length (delta_arrays g))"


section \<open>Example models\<close>

text \<open>The same place identifier declared twice, and two places of the counter model.\<close>

definition redeclared :: "(string \<times> ptnet_Place) list" where
  "redeclared =
     [(''p0'', \<lparr>Initial = 0, Capacity = 0, Offset = 0\<rparr>),
      (''p0'', \<lparr>Initial = 1, Capacity = 0, Offset = 0\<rparr>)]"

definition redeclared_model :: MetaModel where
  "redeclared_model =
     \<lparr>Schema = ''s'', Places = [(''p0'', 1)], Transitions = [], VectorSize = 2, vars = [],
      arcs = [], frozen = False\<rparr>"

definition redeclared_heap :: heap where
  "redeclared_heap =
     \<lparr>place_cells = [\<lparr>Initial = 0, Capacity = 0, Offset = 0\<rparr>,
                     \<lparr>Initial = 1, Capacity = 0, Offset = 1\<rparr>],
      transition_cells = [], delta_arrays = []\<rparr>"

definition two_places :: "(string \<times> ptnet_Place) list" where
  "two_places =
     [(''00'', \<lparr>Initial = 0, Capacity = 0, Offset = 0\<rparr>),
      (''01'', \<lparr>Initial = 1, Capacity = 0, Offset = 0\<rparr>)]"

text \<open>
  One place \<open>p\<close> and one transition \<open>t\<close>, as \<open>Place\<close> and \<open>Transition\<close> leave them on
  a new model, with the handles they return.
\<close>

definition ex_place :: ptnet_Place where
  "ex_place = \<lparr>Initial = 0, Capacity = 0, Offset = 0\<rparr>"

definition ex_transition :: statemachine_Transition where
  "ex_transition = \<lparr>Role = ''default'', Delta = None\<rparr>"

definition ex_p :: Node where
  "ex_p = \<lparr>Label = ''p'', arcFactory = True, nodeType = PLACE, Place_ptr = Some 0,
           Transition_ptr = None\<rparr>"

definition ex_t :: Node where
  "ex_t = \<lparr>Label = ''t'', arcFactory = True, nodeType = TRANSITION, Place_ptr = None,
           Transition_ptr = Some 0\<rparr>"

definition ex_model :: MetaModel where
  "ex_model =
     \<lparr>Schema = ''s'', Places = [(''p'', 0)], Transitions = [(''t'', 0)], VectorSize = 1,
      vars = [], arcs = [], frozen = False\<rparr>"

definition ex_heap :: heap where
  "ex_heap = \<lparr>place_cells = [ex_place], transition_cells = [ex_transition], delta_arrays = []\<rparr>"

text \<open>The same after \<open>Freeze\<close>: the transition has its zero-filled delta.\<close>

definition ex_frozen_heap :: heap where
  "ex_frozen_heap =
     \<lparr>place_cells = [ex_place], transition_cells = [ex_transition\<lparr>Delta := Some 0\<rparr>],
      delta_arrays = [[0]]\<rparr>"

definition ex_net :: ptnet_PTNet where
  "ex_net =
     \<lparr>net_Places = [(''p'', ex_place)],
      net_Transitions = [(''t'', ex_transition\<lparr>Delta := Some 0\<rparr>)]\<rparr>"

text \<open>
  Variables for the example model: the weight of the arc from \<open>t\<close> to \<open>p\<close>, the weight
  of the arc from \<open>p\<close> to \<open>t\<close>, and the capacity of \<open>p\<close>.
\<close>

definition ex_weight_var :: VarMap where
  "ex_weight_var = \<lparr>Ref_Target = ''p'', Ref_Source = ''t'', binding = Some 2, varType = WeightVar\<rparr>"

definition ex_weight_var_in :: VarMap where
  "ex_weight_var_in =
     \<lparr>Ref_Target = ''t'', Ref_Source = ''p'', binding = Some 3, varType = WeightVar\<rparr>"

definition ex_capacity_var :: VarMap where
  "ex_capacity_var =
     \<lparr>Ref_Target = [], Ref_Source = ''p'', binding = Some 5, varType = CapacityVar\<rparr>"

text \<open>Arcs between \<open>p\<close> and \<open>t\<close> of the example model.\<close>

definition ex_consume :: Arc where
  "ex_consume = \<lparr>Source = ex_p, Target = ex_t, Weight = 1, Type = ARC\<rparr>"

definition ex_produce :: Arc where
  "ex_produce = \<lparr>Source = ex_t, Target = ex_p, Weight = 3, Type = ARC\<rparr>"

definition ex_inhibit :: Arc where
  "ex_inhibit = \<lparr>Source = ex_p, Target = ex_t, Weight = 5, Type = INHIBITOR\<rparr>"



section \<open>The registry: offsets of declared places\<close>

lemma Place_Inr:
  "MetaModel_Place label place m h = Inr (n, m1, h1) \<longleftrightarrow>
     \<not> frozen m \<and>
     n = \<lparr>Label = label, arcFactory = True, nodeType = PLACE,
          Place_ptr = Some (length (place_cells h)), Transition_ptr = None\<rparr> \<and>
     m1 = m\<lparr>VectorSize := VectorSize m + 1,
            Places := AList.update label (length (place_cells h)) (Places m)\<rparr> \<and>
     h1 = h\<lparr>place_cells := place_cells h @ [place\<lparr>Offset := VectorSize m\<rparr>]\<rparr>"
  by (auto simp: MetaModel_Place_def MetaModel_assertNotFrozen_def Let_def)

lemma declare_places_shape:
  "declare_places ds m h = Inr (ns, m', h') \<Longrightarrow>
     VectorSize m' = VectorSize m + length ds \<and> length ns = length ds \<and>
     Transitions m' = Transitions m \<and> arcs m' = arcs m \<and> vars m' = vars m \<and>
     frozen m' = frozen m \<and> Schema m' = Schema m \<and>
     transition_cells h' = transition_cells h \<and> delta_arrays h' = delta_arrays h \<and>
     length (place_cells h') = length (place_cells h) + length ds \<and>
     (\<forall>i<length (place_cells h). place_cells h' ! i = place_cells h ! i)"
proof (induction ds arbitrary: m h ns)
  case Nil
  then show ?case by simp
next
  case (Cons d ds)
  obtain label place where d: "d = (label, place)" by (cases d)
  from Cons.prems d obtain n m1 h1 ns1 where
    step: "MetaModel_Place label place m h = Inr (n, m1, h1)" and
    rest: "declare_places ds m1 h1 = Inr (ns1, m', h')" and
    ns: "ns = n # ns1"
    by (auto split: sum.splits)
  from Cons.IH[OF rest] step ns show ?case
    by (auto simp: Place_Inr nth_append)
qed

lemma declare_places_cells:
  "declare_places ds m h = Inr (ns, m', h') \<Longrightarrow> i < length ds \<Longrightarrow>
     Place_ptr (ns ! i) = Some (length (place_cells h) + i) \<and>
     Node_IsPlace (ns ! i) \<and>
     place_cells h' ! (length (place_cells h) + i) = (snd (ds ! i))\<lparr>Offset := VectorSize m + i\<rparr>"
proof (induction ds arbitrary: m h ns i)
  case Nil
  then show ?case by simp
next
  case (Cons d ds)
  obtain label place where d: "d = (label, place)" by (cases d)
  from Cons.prems d obtain n m1 h1 ns1 where
    step: "MetaModel_Place label place m h = Inr (n, m1, h1)" and
    rest: "declare_places ds m1 h1 = Inr (ns1, m', h')" and
    ns: "ns = n # ns1"
    by (auto split: sum.splits)
  show ?case
  proof (cases i)
    case 0
    from declare_places_shape[OF rest] step
    have "place_cells h' ! length (place_cells h) = place\<lparr>Offset := VectorSize m\<rparr>"
      by (auto simp: Place_Inr nth_append)
    with 0 step ns d show ?thesis
      by (auto simp: Place_Inr Node_IsPlace_def)
  next
    case (Suc j)
    with Cons.prems have "j < length ds" by simp
    from Cons.IH[OF rest this] step ns d Suc show ?thesis
      by (auto simp: Place_Inr)
  qed
qed

lemma declare_places_keys:
  "declare_places ds m h = Inr (ns, m', h') \<Longrightarrow>
     fst ` set (Places m') = fst ` set (Places m) \<union> fst ` set ds \<and>
     (\<forall>k. k \<notin> fst ` set ds \<longrightarrow> map_of (Places m') k = map_of (Places m) k)"
proof (induction ds arbitrary: m h ns)
  case Nil
  then show ?case by simp
next
  case (Cons d ds)
  obtain label place where d: "d = (label, place)" by (cases d)
  from Cons.prems d obtain n m1 h1 ns1 where
    step: "MetaModel_Place label place m h = Inr (n, m1, h1)" and
    rest: "declare_places ds m1 h1 = Inr (ns1, m', h')" and
    ns: "ns = n # ns1"
    by (auto split: sum.splits)
  from step have P1: "Places m1 = AList.update label (length (place_cells h)) (Places m)"
    by (simp add: Place_Inr)
  from Cons.IH[OF rest] show ?case
    by (auto simp: P1 d dom_update update_conv')
qed

lemma declare_places_last:
  "declare_places ds m h = Inr (ns, m', h') \<Longrightarrow> i < length ds \<Longrightarrow>
     (\<forall>j. i < j \<and> j < length ds \<longrightarrow> fst (ds ! j) \<noteq> fst (ds ! i)) \<Longrightarrow>
     map_of (Places m') (fst (ds ! i)) = Some (length (place_cells h) + i)"
proof (induction ds arbitrary: m h ns i)
  case Nil
  then show ?case by simp
next
  case (Cons d ds)
  obtain label place where d: "d = (label, place)" by (cases d)
  from Cons.prems d obtain n m1 h1 ns1 where
    step: "MetaModel_Place label place m h = Inr (n, m1, h1)" and
    rest: "declare_places ds m1 h1 = Inr (ns1, m', h')" and
    ns: "ns = n # ns1"
    by (auto split: sum.splits)
  from step have P1: "Places m1 = AList.update label (length (place_cells h)) (Places m)"
    and C1: "length (place_cells h1) = length (place_cells h) + 1"
    by (simp_all add: Place_Inr)
  show ?case
  proof (cases i)
    case 0
    have "label \<notin> fst ` set ds"
    proof
      assume "label \<in> fst ` set ds"
      then obtain j where "j < length ds" "fst (ds ! j) = label"
        by (auto simp: in_set_conv_nth)
      with Cons.prems(3)[rule_format, of "Suc j"] 0 d show False by simp
    qed
    with declare_places_keys[OF rest] have "map_of (Places m') label = map_of (Places m1) label"
      by blast
    with 0 d P1 show ?thesis by (simp add: update_conv')
  next
    case (Suc j)
    with Cons.prems have j: "j < length ds" by simp
    have "\<forall>j'. j < j' \<and> j' < length ds \<longrightarrow> fst (ds ! j') \<noteq> fst (ds ! j)"
    proof (intro allI impI)
      fix j' assume "j < j' \<and> j' < length ds"
      with Cons.prems(3)[rule_format, of "Suc j'"] Suc show "fst (ds ! j') \<noteq> fst (ds ! j)"
        by simp
    qed
    from Cons.IH[OF rest j this] Suc C1 show ?thesis by simp
  qed
qed

lemma declare_places_distinct:
  "declare_places ds m h = Inr (ns, m', h') \<Longrightarrow> distinct (map fst (Places m) @ map fst ds) \<Longrightarrow>
     map fst (Places m') = map fst (Places m) @ map fst ds"
proof (induction ds arbitrary: m h ns)
  case Nil
  then show ?case by simp
next
  case (Cons d ds)
  obtain label place where d: "d = (label, place)" by (cases d)
  from Cons.prems d obtain n m1 h1 ns1 where
    step: "MetaModel_Place label place m h = Inr (n, m1, h1)" and
    rest: "declare_places ds m1 h1 = Inr (ns1, m', h')" and
    ns: "ns = n # ns1"
    by (auto split: sum.splits)
  from step have P1: "Places m1 = AList.update label (length (place_cells h)) (Places m)"
    by (simp add: Place_Inr)
  from Cons.prems(2) d have k1: "map fst (Places m1) = map fst (Places m) @ [label]"
    by (auto simp: P1 update_keys)
  with Cons.prems(2) d have "distinct (map fst (Places m1) @ map fst ds)" by auto
  from Cons.IH[OF rest this] k1 d show ?case by simp
qed


text \<open>
  C2 (as amended). After any sequence of \<open>Place\<close> calls on a new model, freezing
  succeeds and changes nothing but the flag; the place count \<open>VectorSize\<close> is the number
  of calls; the place made by call \<open>i\<close> (counting from 0) has offset \<open>i\<close>; the map holds
  exactly the declared identifiers and sends each to the place of its last declaration.
  When the identifiers are pairwise distinct, the place count is the number of distinct
  identifiers and the map lists them in declaration order.
\<close>

theorem place_offsets_follow_calls:
  assumes run: "declare_places ds (New schema) h0 = Inr (ns, m, h)"
  shows "MetaModel_Freeze m h = Inr (m\<lparr>frozen := True\<rparr>, h) \<and>
         VectorSize m = length ds \<and> length ns = length ds \<and>
         fst ` set (Places m) = fst ` set ds \<and>
         (\<forall>i<length ds.
            Place_ptr (ns ! i) = Some (length (place_cells h0) + i) \<and>
            place_cells h ! (length (place_cells h0) + i) = (snd (ds ! i))\<lparr>Offset := i\<rparr>) \<and>
         (\<forall>i<length ds.
            (\<forall>j. i < j \<and> j < length ds \<longrightarrow> fst (ds ! j) \<noteq> fst (ds ! i)) \<longrightarrow>
            map_of (Places m) (fst (ds ! i)) = Some (length (place_cells h0) + i)) \<and>
         (distinct (map fst ds) \<longrightarrow>
            VectorSize m = card (fst ` set ds) \<and> map fst (Places m) = map fst ds)"
proof -
  from declare_places_shape[OF run]
  have shape: "VectorSize m = length ds" "length ns = length ds" "Transitions m = []" "arcs m = []"
    by (simp_all add: New_def)
  have freeze: "MetaModel_Freeze m h = Inr (m\<lparr>frozen := True\<rparr>, h)"
    by (simp add: MetaModel_Freeze_def shape)
  from declare_places_keys[OF run]
  have keys: "fst ` set (Places m) = fst ` set ds"
    by (simp add: New_def)
  have cells: "\<forall>i<length ds.
            Place_ptr (ns ! i) = Some (length (place_cells h0) + i) \<and>
            place_cells h ! (length (place_cells h0) + i) = (snd (ds ! i))\<lparr>Offset := i\<rparr>"
    using declare_places_cells[OF run] by (simp add: New_def)
  have last: "\<forall>i<length ds.
            (\<forall>j. i < j \<and> j < length ds \<longrightarrow> fst (ds ! j) \<noteq> fst (ds ! i)) \<longrightarrow>
            map_of (Places m) (fst (ds ! i)) = Some (length (place_cells h0) + i)"
    using declare_places_last[OF run] by blast
  have dist: "distinct (map fst ds) \<longrightarrow>
            VectorSize m = card (fst ` set ds) \<and> map fst (Places m) = map fst ds"
  proof
    assume d: "distinct (map fst ds)"
    then have "card (fst ` set ds) = length ds"
      using distinct_card[of "map fst ds"] by simp
    moreover from declare_places_distinct[OF run] d have "map fst (Places m) = map fst ds"
      by (simp add: New_def)
    ultimately show "VectorSize m = card (fst ` set ds) \<and> map fst (Places m) = map fst ds"
      using shape by simp
  qed
  from freeze shape keys cells last dist show ?thesis by blast
qed

lemma two_places_run:
  "declare_places two_places (New ''Counter'') empty_heap =
     Inr ([\<lparr>Label = ''00'', arcFactory = True, nodeType = PLACE, Place_ptr = Some 0,
            Transition_ptr = None\<rparr>,
           \<lparr>Label = ''01'', arcFactory = True, nodeType = PLACE, Place_ptr = Some 1,
            Transition_ptr = None\<rparr>],
          \<lparr>Schema = ''Counter'', Places = [(''00'', 0), (''01'', 1)], Transitions = [],
           VectorSize = 2, vars = [], arcs = [], frozen = False\<rparr>,
          \<lparr>place_cells = [\<lparr>Initial = 0, Capacity = 0, Offset = 0\<rparr>,
                          \<lparr>Initial = 1, Capacity = 0, Offset = 1\<rparr>],
           transition_cells = [], delta_arrays = []\<rparr>)"
  by (simp add: two_places_def New_def empty_heap_def
      MetaModel_Place_def MetaModel_assertNotFrozen_def)

theorem place_offsets_follow_calls_witness:
  "declare_places two_places (New ''Counter'') empty_heap =
     Inr ([\<lparr>Label = ''00'', arcFactory = True, nodeType = PLACE, Place_ptr = Some 0,
            Transition_ptr = None\<rparr>,
           \<lparr>Label = ''01'', arcFactory = True, nodeType = PLACE, Place_ptr = Some 1,
            Transition_ptr = None\<rparr>],
          \<lparr>Schema = ''Counter'', Places = [(''00'', 0), (''01'', 1)], Transitions = [],
           VectorSize = 2, vars = [], arcs = [], frozen = False\<rparr>,
          \<lparr>place_cells = [\<lparr>Initial = 0, Capacity = 0, Offset = 0\<rparr>,
                          \<lparr>Initial = 1, Capacity = 0, Offset = 1\<rparr>],
           transition_cells = [], delta_arrays = []\<rparr>) \<and>
   distinct (map fst two_places) \<and>
   VectorSize \<lparr>Schema = ''Counter'', Places = [(''00'', 0), (''01'', 1)], Transitions = [],
           VectorSize = 2, vars = [], arcs = [], frozen = False\<rparr> = card (fst ` set two_places)"
proof -
  have d: "distinct (map fst two_places)" by (simp add: two_places_def)
  from place_offsets_follow_calls[OF two_places_run] d two_places_run show ?thesis by blast
qed

text \<open>
  The claim as stated fails when an identifier is declared again: two calls with the
  identifier \<open>p0\<close> leave one identifier in the map but a place count of 2, and the
  registered place has offset 1.
\<close>

lemma redeclared_run:
  "declare_places redeclared (New ''s'') empty_heap =
     Inr ([\<lparr>Label = ''p0'', arcFactory = True, nodeType = PLACE, Place_ptr = Some 0,
            Transition_ptr = None\<rparr>,
           \<lparr>Label = ''p0'', arcFactory = True, nodeType = PLACE, Place_ptr = Some 1,
            Transition_ptr = None\<rparr>],
          redeclared_model, redeclared_heap)"
  by (simp add: redeclared_def redeclared_model_def redeclared_heap_def New_def empty_heap_def
      MetaModel_Place_def MetaModel_assertNotFrozen_def)

theorem redeclared_place_counterexample:
  "declare_places redeclared (New ''s'') empty_heap =
     Inr ([\<lparr>Label = ''p0'', arcFactory = True, nodeType = PLACE, Place_ptr = Some 0,
            Transition_ptr = None\<rparr>,
           \<lparr>Label = ''p0'', arcFactory = True, nodeType = PLACE, Place_ptr = Some 1,
            Transition_ptr = None\<rparr>],
          redeclared_model, redeclared_heap) \<and>
   MetaModel_Freeze redeclared_model redeclared_heap =
     Inr (redeclared_model\<lparr>frozen := True\<rparr>, redeclared_heap) \<and>
   VectorSize (redeclared_model\<lparr>frozen := True\<rparr>) = 2 \<and>
   card (fst ` set redeclared) = 1 \<and>
   Places (redeclared_model\<lparr>frozen := True\<rparr>) = [(''p0'', 1)] \<and>
   Offset (place_cells redeclared_heap ! 1) = 1"
  by (simp add: redeclared_run)
     (simp add: redeclared_def redeclared_model_def redeclared_heap_def MetaModel_Freeze_def)

section \<open>The example model\<close>

lemma ex_built:
  "MetaModel_Place ''p'' ex_place (New ''s'') empty_heap =
     Inr (ex_p, (New ''s'')\<lparr>VectorSize := 1, Places := [(''p'', 0)]\<rparr>,
          empty_heap\<lparr>place_cells := [ex_place]\<rparr>) \<and>
   MetaModel_Transition ''t'' ex_transition
       ((New ''s'')\<lparr>VectorSize := 1, Places := [(''p'', 0)]\<rparr>)
       (empty_heap\<lparr>place_cells := [ex_place]\<rparr>) =
     Inr (ex_t, ex_model, ex_heap)"
  by (simp add: MetaModel_Place_def MetaModel_Transition_def MetaModel_assertNotFrozen_def
      New_def empty_heap_def ex_place_def ex_p_def ex_t_def ex_model_def ex_heap_def)

lemma ex_slot: "delta_slot ex_frozen_heap ex_t ex_p = Inr (0, 0)"
  by (simp add: delta_slot_def deref_ptr_def deref_def slice_slot_def ex_frozen_heap_def
      ex_t_def ex_p_def ex_place_def)

lemma ex_freeze: "MetaModel_Freeze ex_model ex_heap = Inr (ex_model\<lparr>frozen := True\<rparr>, ex_frozen_heap)"
  by (simp add: MetaModel_Freeze_def ex_model_def deref_def ex_heap_def ex_frozen_heap_def)

section \<open>Declarations after freeze\<close>

lemma declaration_after_freeze_fails:
  "frozen m \<Longrightarrow>
     MetaModel_Place label place m h = Inl FrozenModelCannotBeAltered \<and>
     MetaModel_Transition label transition m h = Inl FrozenModelCannotBeAltered \<and>
     MetaModel_Role label m = Inl FrozenModelCannotBeAltered"
  by (simp add: MetaModel_Place_def MetaModel_Transition_def MetaModel_Role_def
      MetaModel_assertNotFrozen_def)

lemma TX_ignores_frozen:
  "arcFactory n \<Longrightarrow>
     Node_TX n w c m = Inr (m\<lparr>arcs := arcs m @ [\<lparr>Source = n, Target = c, Weight = w, Type = ARC\<rparr>]\<rparr>)"
  by (simp add: Node_TX_def Node_arcFactory_def MetaModel_AppendArc_def)

text \<open>
  C5. \<open>Place\<close> and \<open>Transition\<close> fail on a frozen model, but \<open>AppendArc\<close> has no frozen
  check: on the frozen example model \<open>p.TX(1, t)\<close> succeeds and the arc is in the ledger,
  and the next \<open>Freeze\<close> folds it into the delta of \<open>t\<close>, which turns from \<open>[0]\<close> into
  \<open>[0 - 1]\<close>.
\<close>

theorem arc_appended_after_freeze:
  "MetaModel_Freeze ex_model ex_heap = Inr (ex_model\<lparr>frozen := True\<rparr>, ex_frozen_heap) \<and>
   MetaModel_Place ''q'' ex_place (ex_model\<lparr>frozen := True\<rparr>) ex_frozen_heap =
     Inl FrozenModelCannotBeAltered \<and>
   MetaModel_Transition ''u'' ex_transition (ex_model\<lparr>frozen := True\<rparr>) ex_frozen_heap =
     Inl FrozenModelCannotBeAltered \<and>
   Node_TX ex_p 1 ex_t (ex_model\<lparr>frozen := True\<rparr>) =
     Inr (ex_model\<lparr>frozen := True, arcs := [ex_consume]\<rparr>) \<and>
   MetaModel_AppendArc ex_consume (ex_model\<lparr>frozen := True\<rparr>) =
     ex_model\<lparr>frozen := True, arcs := [ex_consume]\<rparr> \<and>
   MetaModel_Freeze (ex_model\<lparr>frozen := True, arcs := [ex_consume]\<rparr>) ex_frozen_heap =
     Inr (ex_model\<lparr>frozen := True, arcs := [ex_consume]\<rparr>,
          \<lparr>place_cells = [ex_place], transition_cells = [ex_transition\<lparr>Delta := Some 1\<rparr>],
           delta_arrays = [[0], [0 - 1]]\<rparr>)"
proof -
  have refused:
    "MetaModel_Place ''q'' ex_place (ex_model\<lparr>frozen := True\<rparr>) ex_frozen_heap =
       Inl FrozenModelCannotBeAltered \<and>
     MetaModel_Transition ''u'' ex_transition (ex_model\<lparr>frozen := True\<rparr>) ex_frozen_heap =
       Inl FrozenModelCannotBeAltered"
    by (simp add: declaration_after_freeze_fails)
  have ledger:
    "Node_TX ex_p 1 ex_t (ex_model\<lparr>frozen := True\<rparr>) =
       Inr (ex_model\<lparr>frozen := True, arcs := [ex_consume]\<rparr>) \<and>
     MetaModel_AppendArc ex_consume (ex_model\<lparr>frozen := True\<rparr>) =
       ex_model\<lparr>frozen := True, arcs := [ex_consume]\<rparr>"
    by (simp add: Node_TX_def Node_arcFactory_def MetaModel_AppendArc_def ex_consume_def
        ex_model_def ex_p_def)
  have again:
    "MetaModel_Freeze (ex_model\<lparr>frozen := True, arcs := [ex_consume]\<rparr>) ex_frozen_heap =
     Inr (ex_model\<lparr>frozen := True, arcs := [ex_consume]\<rparr>,
          \<lparr>place_cells = [ex_place], transition_cells = [ex_transition\<lparr>Delta := Some 1\<rparr>],
           delta_arrays = [[0], [0 - 1]]\<rparr>)"
    by (simp add: MetaModel_Freeze_def Freeze_arc_def delta_slot_def slice_slot_def
        deref_ptr_def deref_def store_slot_def Node_IsPlace_def Node_IsTransition_def
        ex_model_def ex_frozen_heap_def ex_p_def ex_t_def ex_place_def ex_consume_def)
  from ex_freeze refused ledger again show ?thesis by simp
qed

section \<open>Variable references\<close>

text \<open>
  C9 (as amended). \<open>Capacity\<close> stores the place identifier in the \<open>Source\<close> field of the
  reference and leaves \<open>Target\<close> alone; a Capacity variable is resolved by looking the
  place up under \<open>Source\<close>, whatever \<open>Target\<close> holds. \<open>Initial\<close> stores the identifier in
  \<open>Target\<close> and leaves \<open>Source\<close> alone; an Initial variable is resolved by looking the
  place up under \<open>Target\<close>, whatever \<open>Source\<close> holds.
\<close>

theorem capacity_var_uses_source:
  "varType (VarMap_Capacity t v) = CapacityVar \<and>
   Ref_Source (VarMap_Capacity t v) = t \<and>
   Ref_Target (VarMap_Capacity t v) = Ref_Target v \<and>
   varType (VarMap_Initial t v) = InitialVar \<and>
   Ref_Target (VarMap_Initial t v) = t \<and>
   Ref_Source (VarMap_Initial t v) = Ref_Source v \<and>
   StateMachine_var (VarMap_Capacity t v) net h =
     (case map_of (net_Places net) t of
        None \<Rightarrow> Inl BadDslVar
      | Some p \<Rightarrow>
          (case binding v of
             None \<Rightarrow> Inl Unbound
           | Some x \<Rightarrow>
               Inr (net\<lparr>net_Places := AList.update t (p\<lparr>Capacity := x\<rparr>) (net_Places net)\<rparr>, h))) \<and>
   StateMachine_var ((VarMap_Capacity t v)\<lparr>Ref_Target := t'\<rparr>) net h =
     StateMachine_var (VarMap_Capacity t v) net h \<and>
   StateMachine_var (VarMap_Initial t v) net h =
     (case map_of (net_Places net) t of
        None \<Rightarrow> Inl BadDslVar
      | Some p \<Rightarrow>
          (case binding v of
             None \<Rightarrow> Inl Unbound
           | Some x \<Rightarrow>
               Inr (net\<lparr>net_Places := AList.update t (p\<lparr>Initial := x\<rparr>) (net_Places net)\<rparr>, h))) \<and>
   StateMachine_var ((VarMap_Initial t v)\<lparr>Ref_Source := t'\<rparr>) net h =
     StateMachine_var (VarMap_Initial t v) net h"
  by (simp add: VarMap_Capacity_def VarMap_Initial_def StateMachine_var_def VarMap_Type_def
      VarMap_GetVal_def assertOK_def split: option.splits)

text \<open>
  The claim as stated fails: after \<open>Capacity("p")\<close> the target field is still empty, and
  a Capacity variable that names the place \<open>p\<close> in its target field only is not resolved.
  (An Initial variable is the other way round.)
\<close>

theorem capacity_target_counterexample:
  "Ref_Target (VarMap_Capacity ''p'' NewVar) = [] \<and>
   Ref_Source (VarMap_Capacity ''p'' NewVar) = ''p'' \<and>
   map_of (net_Places ex_net) ''p'' = Some ex_place \<and>
   StateMachine_var \<lparr>Ref_Target = ''p'', Ref_Source = [], binding = Some 5, varType = CapacityVar\<rparr>
       ex_net ex_frozen_heap = Inl BadDslVar \<and>
   StateMachine_var (VarMap_Bind 5 (VarMap_Capacity ''p'' NewVar)) ex_net ex_frozen_heap =
     Inr (ex_net\<lparr>net_Places := [(''p'', ex_place\<lparr>Capacity := 5\<rparr>)]\<rparr>, ex_frozen_heap) \<and>
   StateMachine_var (VarMap_Bind 4 (VarMap_Initial ''p'' NewVar)) ex_net ex_frozen_heap =
     Inr (ex_net\<lparr>net_Places := [(''p'', ex_place\<lparr>Initial := 4\<rparr>)]\<rparr>, ex_frozen_heap) \<and>
   StateMachine_var \<lparr>Ref_Target = [], Ref_Source = ''p'', binding = Some 4, varType = InitialVar\<rparr>
       ex_net ex_frozen_heap = Inl BadDslVar"
  by (simp add: VarMap_Capacity_def VarMap_Initial_def VarMap_Bind_def NewVar_def
      StateMachine_var_def VarMap_Type_def VarMap_GetVal_def assertOK_def ex_net_def)

section \<open>Slots of the delta arrays\<close>

lemma slice_slot_Inr:
  "slice_slot h sl i = Inr s \<longleftrightarrow>
     (\<exists>d. sl = Some d \<and> s = (d, i) \<and> d < length (delta_arrays h) \<and> i < length (delta_arrays h ! d))"
  by (auto simp: slice_slot_def split: option.splits)

lemma slice_slot_Inl: "slice_slot h sl i = Inl e \<Longrightarrow> e = IndexOutOfRange"
  by (auto simp: slice_slot_def split: option.splits if_splits)

lemma store_slot_cells [simp]:
  "place_cells (store_slot s v h) = place_cells h"
  "transition_cells (store_slot s v h) = transition_cells h"
  "length (delta_arrays (store_slot s v h)) = length (delta_arrays h)"
  by (simp_all add: store_slot_def)

lemma store_slot_length [simp]:
  "length (delta_arrays (store_slot s v h) ! d) = length (delta_arrays h ! d)"
  by (cases "d = fst s"; cases "fst s < length (delta_arrays h)")
     (simp_all add: store_slot_def list_update_beyond)

lemma slice_slot_store [simp]: "slice_slot (store_slot s v h) sl i = slice_slot h sl i"
  by (simp add: slice_slot_def split: option.splits)

lemma delta_slot_store [simp]: "delta_slot (store_slot s v h) t p = delta_slot h t p"
  by (simp add: delta_slot_def split: sum.splits)

lemma load_store_same:
  "fst s < length (delta_arrays h) \<Longrightarrow> snd s < length (delta_arrays h ! fst s) \<Longrightarrow>
     load_slot (store_slot s v h) s = v"
  by (simp add: load_slot_def store_slot_def)

lemma load_store_other: "s' \<noteq> s \<Longrightarrow> load_slot (store_slot s v h) s' = load_slot h s'"
  by (cases s; cases s'; cases "fst s < length (delta_arrays h)")
     (auto simp: load_slot_def store_slot_def nth_list_update list_update_beyond)

lemma delta_slot_valid:
  "delta_slot h t p = Inr s \<Longrightarrow>
     fst s < length (delta_arrays h) \<and> snd s < length (delta_arrays h ! fst s)"
  by (auto simp: delta_slot_def slice_slot_Inr split: sum.splits)

lemma delta_slot_Inl:
  "delta_slot h t p = Inl e \<Longrightarrow> e = NilPointer \<or> e = IndexOutOfRange"
  by (auto simp: delta_slot_def deref_ptr_def deref_def split: sum.splits option.splits if_splits
      dest: slice_slot_Inl)

section \<open>A 64-bit value read as an \<open>int64\<close>\<close>

lemma sint_small: "unat (w :: 64 word) < 2 ^ 63 \<Longrightarrow> sint w = int (unat w)"
proof -
  assume a: "unat w < 2 ^ 63"
  have "int (unat w) < int (2 ^ 63)" using a by (simp only: of_nat_less_iff)
  then have u: "uint w < 2 ^ 63" by simp
  have "- (2 ^ 63) \<le> uint w" by (rule order_trans[of _ 0]) simp_all
  with u have "signed_take_bit 63 (uint w) = uint w"
    by (simp only: signed_take_bit_int_eq_self_iff)
  then show ?thesis by (simp add: sint_uint)
qed

lemma sint_negated: "unat (w :: 64 word) \<le> 2 ^ 63 \<Longrightarrow> sint (0 - w) = - int (unat w)"
proof -
  assume a: "unat w \<le> 2 ^ 63"
  have "int (unat w) \<le> int (2 ^ 63)" using a by (simp only: of_nat_le_iff)
  then have u: "uint w \<le> 2 ^ 63" by simp
  have "0 \<le> uint w" by simp
  then have "- uint w \<le> 0" by simp
  moreover have "(0::int) < 2 ^ 63" by simp
  ultimately have "- uint w < 2 ^ 63" by (rule order.strict_trans1)
  moreover from u have "- (2 ^ 63) \<le> - uint w" by simp
  ultimately have "signed_take_bit 63 (- uint w) = - uint w"
    by (simp only: signed_take_bit_int_eq_self_iff)
  moreover have "sint (- w) = signed_take_bit 63 (- uint w)"
    using sint_sbintrunc'[where 'a = 64, of "- uint w"] by simp
  ultimately show ?thesis by simp
qed

lemma sint_large: "2 ^ 63 \<le> unat (w :: 64 word) \<Longrightarrow> sint w = int (unat w) - 2 ^ 64"
proof -
  assume a: "2 ^ 63 \<le> unat w"
  have "int (2 ^ 63) \<le> int (unat w)" using a by (simp only: of_nat_le_iff)
  then have lo: "2 ^ 63 \<le> uint w" by simp
  have hi: "uint w < 2 ^ 64" using uint_bounded[of w] by simp
  from lo have "- (2 ^ 63) \<le> uint w - 2 ^ 64" by simp
  moreover from hi have "uint w - 2 ^ 64 < 2 ^ 63" by simp
  ultimately have fits: "signed_take_bit 63 (uint w - 2 ^ 64) = uint w - 2 ^ 64"
    by (simp only: signed_take_bit_int_eq_self_iff)
  have same: "(word_of_int (uint w - 2 ^ 64) :: 64 word) = w"
    by simp
  have "sint w = sint (word_of_int (uint w - 2 ^ 64) :: 64 word)"
    by (simp only: same)
  also have "\<dots> = signed_take_bit (LENGTH(64) - 1) (uint w - 2 ^ 64)"
    by (rule sint_sbintrunc')
  also have "\<dots> = signed_take_bit 63 (uint w - 2 ^ 64)" by simp
  also note fits
  finally show ?thesis by simp
qed

lemma sint_negated_large:
  "2 ^ 63 < unat (w :: 64 word) \<Longrightarrow> sint (0 - w) = 2 ^ 64 - int (unat w)"
proof -
  assume a: "2 ^ 63 < unat w"
  have "int (2 ^ 63) < int (unat w)" using a by (simp only: of_nat_less_iff)
  then have lo: "2 ^ 63 < uint w" by simp
  have hi: "uint w < 2 ^ 64" using uint_bounded[of w] by simp
  from hi have "- (2 ^ 63) \<le> 2 ^ 64 - uint w" by simp
  moreover from lo have "2 ^ 64 - uint w < 2 ^ 63" by simp
  ultimately have fits: "signed_take_bit 63 (2 ^ 64 - uint w) = 2 ^ 64 - uint w"
    by (simp only: signed_take_bit_int_eq_self_iff)
  have same: "(word_of_int (2 ^ 64 - uint w) :: 64 word) = 0 - w"
    by simp
  have "sint (0 - w) = sint (word_of_int (2 ^ 64 - uint w) :: 64 word)"
    by (simp only: same)
  also have "\<dots> = signed_take_bit (LENGTH(64) - 1) (2 ^ 64 - uint w)"
    by (rule sint_sbintrunc')
  also have "\<dots> = signed_take_bit 63 (2 ^ 64 - uint w)" by simp
  also note fits
  finally show ?thesis by simp
qed

lemma sint_stored:
  "(unat (x :: 64 word) < 2 ^ 63 \<longrightarrow> sint x = int (unat x)) \<and>
   (2 ^ 63 \<le> unat x \<longrightarrow> sint x = int (unat x) - 2 ^ 64)"
  by (intro conjI impI) (rule sint_small, assumption, rule sint_large, assumption)

lemma sint_stored_negated:
  "(unat (x :: 64 word) \<le> 2 ^ 63 \<longrightarrow> sint (0 - x) = - int (unat x)) \<and>
   (2 ^ 63 < unat x \<longrightarrow> sint (0 - x) = 2 ^ 64 - int (unat x))"
  by (intro conjI impI) (rule sint_negated, assumption, rule sint_negated_large, assumption)

section \<open>Inhibitor arcs\<close>

text \<open>
  C4 (as amended). \<open>Inhibitor\<close> accepts only a place as source and a transition as
  target, and appends an arc of type \<open>INHIBITOR\<close>. In the loop of \<open>Freeze\<close> that arc takes
  the branch of a normal arc from the place to the transition (the type is never looked
  at): it is no bad-arc panic, and where it is folded the delta of the transition at the
  offset of the place is \<open>0 - weight\<close>, a 64-bit value. Read as an \<open>int64\<close> that is \<open>-w\<close>
  for a weight \<open>w\<close> up to \<open>2^63\<close>, and the positive number \<open>2^64 - w\<close> for a larger one.
\<close>

theorem inhibitor_folded_as_consuming_arc:
  assumes "Node_Inhibitor n w t m = Inr m'"
  shows "Node_IsPlace n \<and> Node_IsTransition t \<and>
         arcs m' = arcs m @ [\<lparr>Source = n, Target = t, Weight = w, Type = INHIBITOR\<rparr>] \<and>
         Freeze_arc \<lparr>Source = n, Target = t, Weight = w, Type = INHIBITOR\<rparr> h =
           Freeze_arc \<lparr>Source = n, Target = t, Weight = w, Type = ARC\<rparr> h \<and>
         Freeze_arc \<lparr>Source = n, Target = t, Weight = w, Type = INHIBITOR\<rparr> h \<noteq>
           Inl BadArcDeclaration \<and>
         (\<forall>h'. Freeze_arc \<lparr>Source = n, Target = t, Weight = w, Type = INHIBITOR\<rparr> h = Inr h' \<longrightarrow>
            (\<exists>s. delta_slot h' t n = Inr s \<and> load_slot h' s = 0 - w \<and>
                 h' = store_slot s (0 - w) h \<and>
                 (unat w \<le> 2 ^ 63 \<longrightarrow> sint (load_slot h' s) = - int (unat w)) \<and>
                 (2 ^ 63 < unat w \<longrightarrow> sint (load_slot h' s) = 2 ^ 64 - int (unat w))))"
proof -
  from assms have kinds: "Node_IsPlace n" "Node_IsTransition t"
    by (auto simp: Node_Inhibitor_def Node_IsPlace_def Node_IsTransition_def
        split: if_splits intro: nodeType.exhaust)
  from assms have ledger:
    "arcs m' = arcs m @ [\<lparr>Source = n, Target = t, Weight = w, Type = INHIBITOR\<rparr>]"
    by (auto simp: Node_Inhibitor_def Node_arcFactory_def MetaModel_AppendArc_def
        split: if_splits)
  have same: "Freeze_arc \<lparr>Source = n, Target = t, Weight = w, Type = INHIBITOR\<rparr> h =
           Freeze_arc \<lparr>Source = n, Target = t, Weight = w, Type = ARC\<rparr> h"
    by (simp add: Freeze_arc_def split: sum.splits)
  have branch: "Freeze_arc \<lparr>Source = n, Target = t, Weight = w, Type = INHIBITOR\<rparr> h =
      (case delta_slot h t n of Inl e \<Rightarrow> Inl e | Inr s \<Rightarrow> Inr (store_slot s (0 - w) h))"
    using kinds by (simp add: Freeze_arc_def split: sum.splits)
  have no_bad: "Freeze_arc \<lparr>Source = n, Target = t, Weight = w, Type = INHIBITOR\<rparr> h \<noteq>
           Inl BadArcDeclaration"
    by (auto simp: branch split: sum.splits dest: delta_slot_Inl)
  have written: "\<forall>h'. Freeze_arc \<lparr>Source = n, Target = t, Weight = w, Type = INHIBITOR\<rparr> h = Inr h' \<longrightarrow>
            (\<exists>s. delta_slot h' t n = Inr s \<and> load_slot h' s = 0 - w \<and>
                 h' = store_slot s (0 - w) h \<and>
                 (unat w \<le> 2 ^ 63 \<longrightarrow> sint (load_slot h' s) = - int (unat w)) \<and>
                 (2 ^ 63 < unat w \<longrightarrow> sint (load_slot h' s) = 2 ^ 64 - int (unat w)))"
  proof (intro allI impI)
    fix h'
    assume "Freeze_arc \<lparr>Source = n, Target = t, Weight = w, Type = INHIBITOR\<rparr> h = Inr h'"
    then obtain s where s: "delta_slot h t n = Inr s" and h': "h' = store_slot s (0 - w) h"
      by (auto simp: branch split: sum.splits)
    from delta_slot_valid[OF s] have stored: "load_slot h' s = 0 - w"
      by (simp add: h' load_store_same)
    from s have slot: "delta_slot h' t n = Inr s" by (simp add: h')
    from sint_stored_negated[of w]
    have "(unat w \<le> 2 ^ 63 \<longrightarrow> sint (load_slot h' s) = - int (unat w)) \<and>
          (2 ^ 63 < unat w \<longrightarrow> sint (load_slot h' s) = 2 ^ 64 - int (unat w))"
      by (simp only: stored)
    with slot stored h'
    show "\<exists>s. delta_slot h' t n = Inr s \<and> load_slot h' s = 0 - w \<and>
                 h' = store_slot s (0 - w) h \<and>
                 (unat w \<le> 2 ^ 63 \<longrightarrow> sint (load_slot h' s) = - int (unat w)) \<and>
                 (2 ^ 63 < unat w \<longrightarrow> sint (load_slot h' s) = 2 ^ 64 - int (unat w))"
      by blast
  qed
  show ?thesis
    by (intro conjI) (fact kinds ledger same no_bad written)+
qed

theorem inhibitor_folded_witness:
  "Node_Inhibitor ex_p 5 ex_t ex_model =
     Inr (ex_model\<lparr>arcs := [\<lparr>Source = ex_p, Target = ex_t, Weight = 5, Type = INHIBITOR\<rparr>]\<rparr>) \<and>
   Node_IsPlace ex_p \<and> Node_IsTransition ex_t \<and>
   MetaModel_Freeze
       (ex_model\<lparr>arcs := [\<lparr>Source = ex_p, Target = ex_t, Weight = 5, Type = INHIBITOR\<rparr>]\<rparr>) ex_heap =
     Inr (ex_model\<lparr>arcs := [\<lparr>Source = ex_p, Target = ex_t, Weight = 5, Type = INHIBITOR\<rparr>],
                   frozen := True\<rparr>,
          ex_frozen_heap\<lparr>delta_arrays := [[0 - 5]]\<rparr>) \<and>
   sint (0 - 5 :: int64) = - 5"
proof -
  have run: "Node_Inhibitor ex_p 5 ex_t ex_model =
     Inr (ex_model\<lparr>arcs := [\<lparr>Source = ex_p, Target = ex_t, Weight = 5, Type = INHIBITOR\<rparr>]\<rparr>)"
    by (simp add: Node_Inhibitor_def Node_arcFactory_def MetaModel_AppendArc_def
        Node_IsPlace_def Node_IsTransition_def ex_p_def ex_t_def ex_model_def)
  have frz: "MetaModel_Freeze
       (ex_model\<lparr>arcs := [\<lparr>Source = ex_p, Target = ex_t, Weight = 5, Type = INHIBITOR\<rparr>]\<rparr>) ex_heap =
     Inr (ex_model\<lparr>arcs := [\<lparr>Source = ex_p, Target = ex_t, Weight = 5, Type = INHIBITOR\<rparr>],
                   frozen := True\<rparr>,
          ex_frozen_heap\<lparr>delta_arrays := [[0 - 5]]\<rparr>)"
    by (simp add: MetaModel_Freeze_def Freeze_arc_def delta_slot_def slice_slot_def
        deref_ptr_def deref_def store_slot_def Node_IsPlace_def Node_IsTransition_def
        ex_model_def ex_heap_def ex_frozen_heap_def ex_p_def ex_t_def ex_place_def)
  have signed: "sint (0 - 5 :: int64) = - 5" by simp
  from inhibitor_folded_as_consuming_arc[OF run]
  have kinds: "Node_IsPlace ex_p" "Node_IsTransition ex_t" by blast+
  show ?thesis
    by (intro conjI) (fact run kinds frz signed)+
qed

text \<open>
  The claim as stated says that the delta is set to \<open>-weight\<close>. It fails for a weight
  above \<open>2^63\<close>: the inhibitor arc of weight \<open>2^64 - 1\<close> leaves the delta \<open>1\<close>.
\<close>

theorem inhibitor_weight_wraps_counterexample:
  "Node_Inhibitor ex_p 18446744073709551615 ex_t ex_model =
     Inr (ex_model\<lparr>arcs := [\<lparr>Source = ex_p, Target = ex_t, Weight = 18446744073709551615,
                              Type = INHIBITOR\<rparr>]\<rparr>) \<and>
   MetaModel_Freeze
       (ex_model\<lparr>arcs := [\<lparr>Source = ex_p, Target = ex_t, Weight = 18446744073709551615,
                           Type = INHIBITOR\<rparr>]\<rparr>) ex_heap =
     Inr (ex_model\<lparr>arcs := [\<lparr>Source = ex_p, Target = ex_t, Weight = 18446744073709551615,
                              Type = INHIBITOR\<rparr>],
                   frozen := True\<rparr>,
          ex_frozen_heap\<lparr>delta_arrays := [[1]]\<rparr>) \<and>
   unat (18446744073709551615 :: uint64) = 18446744073709551615 \<and>
   sint (1 :: int64) = 1 \<and>
   sint (1 :: int64) \<noteq> - int (unat (18446744073709551615 :: uint64))"
proof -
  have run: "Node_Inhibitor ex_p 18446744073709551615 ex_t ex_model =
     Inr (ex_model\<lparr>arcs := [\<lparr>Source = ex_p, Target = ex_t, Weight = 18446744073709551615,
                              Type = INHIBITOR\<rparr>]\<rparr>)"
    by (simp add: Node_Inhibitor_def Node_arcFactory_def MetaModel_AppendArc_def
        Node_IsPlace_def Node_IsTransition_def ex_p_def ex_t_def ex_model_def)
  have frz: "MetaModel_Freeze
       (ex_model\<lparr>arcs := [\<lparr>Source = ex_p, Target = ex_t, Weight = 18446744073709551615,
                           Type = INHIBITOR\<rparr>]\<rparr>) ex_heap =
     Inr (ex_model\<lparr>arcs := [\<lparr>Source = ex_p, Target = ex_t, Weight = 18446744073709551615,
                              Type = INHIBITOR\<rparr>],
                   frozen := True\<rparr>,
          ex_frozen_heap\<lparr>delta_arrays := [[1]]\<rparr>)"
    by (simp add: MetaModel_Freeze_def Freeze_arc_def delta_slot_def slice_slot_def
        deref_ptr_def deref_def store_slot_def Node_IsPlace_def Node_IsTransition_def
        ex_model_def ex_heap_def ex_frozen_heap_def ex_p_def ex_t_def ex_place_def)
  have reads: "unat (18446744073709551615 :: uint64) = 18446744073709551615" "sint (1 :: int64) = 1"
    "sint (1 :: int64) \<noteq> - int (unat (18446744073709551615 :: uint64))"
    by simp_all
  show ?thesis
    by (intro conjI) (fact run frz reads)+
qed

section \<open>Freezing on export\<close>

lemma Freeze_alloc_Inl: "Freeze_alloc n kts h = Inl e \<Longrightarrow> e = NilPointer"
  by (induction n kts h rule: Freeze_alloc.induct)
     (auto simp: deref_def split: sum.splits if_splits)

lemma Freeze_arc_Inl:
  "Freeze_arc a h = Inl e \<Longrightarrow> e = NilPointer \<or> e = IndexOutOfRange \<or> e = BadArcDeclaration"
  by (auto simp: Freeze_arc_def split: if_splits sum.splits dest: delta_slot_Inl)

lemma Freeze_arcs_Inl:
  "Freeze_arcs as h = Inl e \<Longrightarrow> e = NilPointer \<or> e = IndexOutOfRange \<or> e = BadArcDeclaration"
  by (induction as arbitrary: h) (auto split: sum.splits dest: Freeze_arc_Inl)

lemma Freeze_Inl:
  "MetaModel_Freeze m h = Inl e \<Longrightarrow> e = NilPointer \<or> e = IndexOutOfRange \<or> e = BadArcDeclaration"
  by (auto simp: MetaModel_Freeze_def split: sum.splits dest: Freeze_alloc_Inl Freeze_arcs_Inl)

lemma Freeze_Inr: "MetaModel_Freeze m h = Inr (m1, h1) \<Longrightarrow> m1 = m\<lparr>frozen := True\<rparr>"
  by (auto simp: MetaModel_Freeze_def split: sum.splits)

lemma Freeze_frozen: "MetaModel_Freeze m h = Inr (m1, h1) \<Longrightarrow> frozen m1"
  by (auto simp: MetaModel_Freeze_def split: sum.splits)

lemma copy_cells_Inl: "copy_cells cells kps = Inl e \<Longrightarrow> e = NilPointer"
  by (induction cells kps rule: copy_cells.induct)
     (auto simp: deref_def split: sum.splits if_splits)

lemma encode_transitions_Inl: "encode_transitions h kps = Inl e \<Longrightarrow> e = NilPointer"
  by (induction h kps rule: encode_transitions.induct)
     (auto simp: deref_def encode_transition_def split: sum.splits if_splits option.splits)

lemma ToAny_Inl: "MetaModel_ToAny enc m h = Inl e \<Longrightarrow> e = NilPointer"
  by (auto simp: MetaModel_ToAny_def document_of_def split: sum.splits
      dest: copy_cells_Inl encode_transitions_Inl)

lemma StateMachine_var_Inl:
  "StateMachine_var v net h = Inl e \<Longrightarrow> e = BadDslVar \<or> e = Unbound \<or> e = IndexOutOfRange"
  by (auto simp: StateMachine_var_def assertOK_def VarMap_GetVal_def store_delta_def
      split: varType.splits option.splits sum.splits dest: slice_slot_Inl)

lemma StateMachine_vars_Inl:
  "StateMachine_vars vs net h = Inl e \<Longrightarrow> e = BadDslVar \<or> e = Unbound \<or> e = IndexOutOfRange"
  by (induction vs arbitrary: net h) (auto split: sum.splits dest: StateMachine_var_Inl)

lemma PTNet_frozen:
  "frozen m \<Longrightarrow> MetaModel_PTNet m h =
     (case copy_cells (place_cells h) (Places m) of
        Inl e \<Rightarrow> Inl e
      | Inr ps \<Rightarrow>
          (case copy_cells (transition_cells h) (Transitions m) of
             Inl e \<Rightarrow> Inl e
           | Inr ts \<Rightarrow> Inr (\<lparr>net_Places = ps, net_Transitions = ts\<rparr>, m, h)))"
  by (simp add: MetaModel_PTNet_def)

lemma PTNet_Inl: "MetaModel_PTNet m h = Inl e \<Longrightarrow> e \<noteq> ExpectedFrozenModel"
  by (auto simp: MetaModel_PTNet_def split: sum.splits if_splits
      dest: Freeze_Inl copy_cells_Inl)

lemma PTNet_Inr: "MetaModel_PTNet m h = Inr (net, m1, h1) \<Longrightarrow> frozen m1"
  by (auto simp: MetaModel_PTNet_def split: sum.splits if_splits dest: Freeze_frozen)

lemma Marshal_frozen:
  "frozen m \<Longrightarrow>
     instance_Marshal enc m h =
       (case MetaModel_ToAny enc m h of Inl e \<Rightarrow> Inl e | Inr n \<Rightarrow> Inr (n, m, h))"
  by (simp add: instance_Marshal_def MetaModel_IsFrozen_def MetaModel_AssertFrozen_def)

lemma Marshal_not_frozen:
  assumes "\<not> frozen m"
  shows "instance_Marshal enc m h =
           (case MetaModel_Freeze m h of
              Inl e \<Rightarrow> Inl e
            | Inr (m1, h1) \<Rightarrow> instance_Marshal enc m1 h1)"
proof (cases "MetaModel_Freeze m h")
  case (Inl e)
  with assms show ?thesis by (simp add: instance_Marshal_def MetaModel_IsFrozen_def)
next
  case (Inr r)
  obtain m1 h1 where r: "r = (m1, h1)" by (cases r)
  with Inr have "frozen m1" by (auto dest: Freeze_frozen)
  with assms Inr r show ?thesis
    by (simp add: Marshal_frozen)
       (simp add: instance_Marshal_def MetaModel_IsFrozen_def MetaModel_AssertFrozen_def)
qed

lemma PTNet_not_frozen:
  "\<not> frozen m \<Longrightarrow>
     MetaModel_PTNet m h =
       (case MetaModel_Freeze m h of
          Inl e \<Rightarrow> Inl e
        | Inr (m1, h1) \<Rightarrow> MetaModel_PTNet m1 h1)"
proof (cases "MetaModel_Freeze m h")
  case (Inl e)
  assume "\<not> frozen m"
  with Inl show ?thesis by (simp add: MetaModel_PTNet_def)
next
  case (Inr r)
  assume nf: "\<not> frozen m"
  obtain m1 h1 where r: "r = (m1, h1)" by (cases r)
  with Inr have "frozen m1" by (auto dest: Freeze_frozen)
  with nf Inr r show ?thesis by (simp add: MetaModel_PTNet_def)
qed

lemma Marshal_Inl: "instance_Marshal enc m h = Inl e \<Longrightarrow> e \<noteq> ExpectedFrozenModel"
proof (cases "frozen m")
  case True
  assume "instance_Marshal enc m h = Inl e"
  with True have "MetaModel_ToAny enc m h = Inl e"
    by (simp add: Marshal_frozen split: sum.splits)
  from ToAny_Inl[OF this] show ?thesis by simp
next
  case False
  assume a: "instance_Marshal enc m h = Inl e"
  show ?thesis
  proof (cases "MetaModel_Freeze m h")
    case (Inl e')
    with False a have "e' = e" by (simp add: Marshal_not_frozen)
    with Freeze_Inl[OF Inl] show ?thesis by auto
  next
    case (Inr r)
    obtain m1 h1 where r: "r = (m1, h1)" by (cases r)
    with Inr have fr: "frozen m1" by (auto dest: Freeze_frozen)
    from False a Inr r have "instance_Marshal enc m1 h1 = Inl e"
      by (simp add: Marshal_not_frozen)
    with fr have "MetaModel_ToAny enc m1 h1 = Inl e"
      by (simp add: Marshal_frozen split: sum.splits)
    from ToAny_Inl[OF this] show ?thesis by simp
  qed
qed

lemma Marshal_Inr: "instance_Marshal enc m h = Inr (n, m', h') \<Longrightarrow> frozen m'"
proof (cases "frozen m")
  case True
  assume "instance_Marshal enc m h = Inr (n, m', h')"
  with True show ?thesis by (simp add: Marshal_frozen split: sum.splits)
next
  case False
  assume a: "instance_Marshal enc m h = Inr (n, m', h')"
  show ?thesis
  proof (cases "MetaModel_Freeze m h")
    case (Inl e')
    with False a show ?thesis by (simp add: Marshal_not_frozen)
  next
    case (Inr r)
    obtain m1 h1 where r: "r = (m1, h1)" by (cases r)
    with Inr have fr: "frozen m1" by (auto dest: Freeze_frozen)
    from False a Inr r have "instance_Marshal enc m1 h1 = Inr (n, m', h')"
      by (simp add: Marshal_not_frozen)
    with fr show ?thesis by (simp add: Marshal_frozen split: sum.splits)
  qed
qed

lemma StateMachine_unfold:
  "instance_StateMachine m h =
     (case MetaModel_Freeze m h of
        Inl e \<Rightarrow> Inl e
      | Inr (m1, h1) \<Rightarrow>
          (case MetaModel_PTNet m1 h1 of
             Inl e \<Rightarrow> Inl e
           | Inr (net, m2, h2) \<Rightarrow>
               (case StateMachine_vars (vars m2) net h2 of
                  Inl e \<Rightarrow> Inl e
                | Inr (net1, h3) \<Rightarrow> Inr (net1, m1, h3))))"
proof (cases "MetaModel_Freeze m h")
  case (Inl e)
  then show ?thesis by (simp add: instance_StateMachine_def)
next
  case (Inr r)
  obtain m1 h1 where r: "r = (m1, h1)" by (cases r)
  with Inr have fr: "frozen m1" by (auto dest: Freeze_frozen)
  show ?thesis
  proof (cases "MetaModel_PTNet m1 h1")
    case (Inl e)
    with Inr r show ?thesis by (simp add: instance_StateMachine_def)
  next
    case (Inr r')
    obtain net m2 h2 where r': "r' = (net, m2, h2)" by (cases r')
    from Inr r' fr have "m2 = m1" by (simp add: PTNet_frozen split: sum.splits)
    with \<open>MetaModel_Freeze m h = Inr r\<close> r Inr r' show ?thesis
      by (simp add: instance_StateMachine_def split: sum.splits)
  qed
qed

lemma StateMachine_Inl: "instance_StateMachine m h = Inl e \<Longrightarrow> e \<noteq> ExpectedFrozenModel"
proof (cases "MetaModel_Freeze m h")
  case (Inl e')
  assume "instance_StateMachine m h = Inl e"
  with Inl have "e' = e" by (simp add: instance_StateMachine_def)
  with Freeze_Inl[OF Inl] show ?thesis by auto
next
  case (Inr r)
  assume a: "instance_StateMachine m h = Inl e"
  obtain m1 h1 where r: "r = (m1, h1)" by (cases r)
  show ?thesis
  proof (cases "MetaModel_PTNet m1 h1")
    case (Inl e')
    with a Inr r have "e' = e" by (simp add: instance_StateMachine_def)
    with PTNet_Inl[OF Inl] show ?thesis by simp
  next
    case (Inr r')
    obtain net m2 h2 where r': "r' = (net, m2, h2)" by (cases r')
    with a \<open>MetaModel_Freeze m h = Inr r\<close> r Inr
    have "StateMachine_vars (vars m2) net h2 = Inl e"
      by (simp add: instance_StateMachine_def split: sum.splits prod.splits)
    from StateMachine_vars_Inl[OF this] show ?thesis by auto
  qed
qed

lemma StateMachine_Inr: "instance_StateMachine m h = Inr (net, m', h') \<Longrightarrow> frozen m'"
proof (cases "MetaModel_Freeze m h")
  case (Inl e')
  assume "instance_StateMachine m h = Inr (net, m', h')"
  with Inl show ?thesis by (simp add: instance_StateMachine_def)
next
  case (Inr r)
  assume a: "instance_StateMachine m h = Inr (net, m', h')"
  obtain m1 h1 where r: "r = (m1, h1)" by (cases r)
  with Inr have fr: "frozen m1" by (auto dest: Freeze_frozen)
  from a Inr r have "m' = m1"
    by (simp add: StateMachine_unfold split: sum.splits prod.splits)
  with fr show ?thesis by simp
qed

text \<open>
  C10. None of \<open>Marshal\<close>, \<open>StateMachine\<close> and \<open>PTNet\<close> ends in the expected-frozen
  panic. On a model that is not frozen each of them runs \<open>Freeze\<close> first: it fails with
  the error of \<open>Freeze\<close> if that fails, and otherwise gives what it gives on the model
  \<open>Freeze\<close> returned (\<open>StateMachine\<close> runs \<open>Freeze\<close> on every call, frozen or not, and goes
  on with \<open>PTNet\<close> and the variables). The model they return is frozen.
\<close>

theorem export_freezes_first:
  "instance_Marshal enc m h \<noteq> Inl ExpectedFrozenModel \<and>
   instance_StateMachine m h \<noteq> Inl ExpectedFrozenModel \<and>
   MetaModel_PTNet m h \<noteq> Inl ExpectedFrozenModel \<and>
   (\<not> frozen m \<longrightarrow>
      instance_Marshal enc m h =
        (case MetaModel_Freeze m h of
           Inl e \<Rightarrow> Inl e
         | Inr (m1, h1) \<Rightarrow> instance_Marshal enc m1 h1) \<and>
      MetaModel_PTNet m h =
        (case MetaModel_Freeze m h of
           Inl e \<Rightarrow> Inl e
         | Inr (m1, h1) \<Rightarrow> MetaModel_PTNet m1 h1)) \<and>
   instance_StateMachine m h =
     (case MetaModel_Freeze m h of
        Inl e \<Rightarrow> Inl e
      | Inr (m1, h1) \<Rightarrow>
          (case MetaModel_PTNet m1 h1 of
             Inl e \<Rightarrow> Inl e
           | Inr (net, m2, h2) \<Rightarrow>
               (case StateMachine_vars (vars m2) net h2 of
                  Inl e \<Rightarrow> Inl e
                | Inr (net1, h3) \<Rightarrow> Inr (net1, m1, h3)))) \<and>
   (\<forall>n m' h'. instance_Marshal enc m h = Inr (n, m', h') \<longrightarrow> frozen m') \<and>
   (\<forall>net m' h'. instance_StateMachine m h = Inr (net, m', h') \<longrightarrow> frozen m') \<and>
   (\<forall>net m' h'. MetaModel_PTNet m h = Inr (net, m', h') \<longrightarrow> frozen m')"
proof -
  have first: "\<not> frozen m \<longrightarrow>
      instance_Marshal enc m h =
        (case MetaModel_Freeze m h of
           Inl e \<Rightarrow> Inl e
         | Inr (m1, h1) \<Rightarrow> instance_Marshal enc m1 h1) \<and>
      MetaModel_PTNet m h =
        (case MetaModel_Freeze m h of
           Inl e \<Rightarrow> Inl e
         | Inr (m1, h1) \<Rightarrow> MetaModel_PTNet m1 h1)"
    using Marshal_not_frozen[of m enc h] PTNet_not_frozen[of m h] by blast
  have fr1: "\<forall>n m' h'. instance_Marshal enc m h = Inr (n, m', h') \<longrightarrow> frozen m'"
    by (intro allI impI) (rule Marshal_Inr)
  have fr2: "\<forall>net m' h'. instance_StateMachine m h = Inr (net, m', h') \<longrightarrow> frozen m'"
    by (intro allI impI) (rule StateMachine_Inr)
  have fr3: "\<forall>net m' h'. MetaModel_PTNet m h = Inr (net, m', h') \<longrightarrow> frozen m'"
    by (intro allI impI) (rule PTNet_Inr)
  have marshal: "instance_Marshal enc m h \<noteq> Inl ExpectedFrozenModel"
    using Marshal_Inl by blast
  have sm: "instance_StateMachine m h \<noteq> Inl ExpectedFrozenModel"
    using StateMachine_Inl by blast
  have net: "MetaModel_PTNet m h \<noteq> Inl ExpectedFrozenModel"
    using PTNet_Inl by blast
  show ?thesis
    by (intro conjI) (fact marshal sm net first StateMachine_unfold fr1 fr2 fr3)+
qed

lemma ex_PTNet_frozen:
  "MetaModel_PTNet (ex_model\<lparr>frozen := True\<rparr>) ex_frozen_heap =
     Inr (ex_net, ex_model\<lparr>frozen := True\<rparr>, ex_frozen_heap)"
  by (simp add: MetaModel_PTNet_def deref_def ex_model_def ex_frozen_heap_def ex_net_def)

theorem export_freezes_first_witness:
  "\<not> frozen ex_model \<and>
   MetaModel_Freeze ex_model ex_heap = Inr (ex_model\<lparr>frozen := True\<rparr>, ex_frozen_heap) \<and>
   MetaModel_PTNet ex_model ex_heap = Inr (ex_net, ex_model\<lparr>frozen := True\<rparr>, ex_frozen_heap) \<and>
   frozen (ex_model\<lparr>frozen := True\<rparr>)"
proof -
  have nf: "\<not> frozen ex_model" by (simp add: ex_model_def)
  from export_freezes_first[of "\<lambda>d. d" ex_model ex_heap] nf
  have "MetaModel_PTNet ex_model ex_heap =
        (case MetaModel_Freeze ex_model ex_heap of
           Inl e \<Rightarrow> Inl e
         | Inr (m1, h1) \<Rightarrow> MetaModel_PTNet m1 h1)"
    by blast
  then have "MetaModel_PTNet ex_model ex_heap =
      Inr (ex_net, ex_model\<lparr>frozen := True\<rparr>, ex_frozen_heap)"
    by (simp add: ex_freeze ex_PTNet_frozen)
  with nf ex_freeze show ?thesis by simp
qed

section \<open>The overlay\<close>

text \<open>
  C3 (as amended). Resolving a Weight variable: if the source names a transition of the
  net, the target must name a place and the slot of that transition's delta at the
  place's offset is set to the value; otherwise the target must name a transition and
  the source a place, and the slot is set to \<open>0 - value\<close>. Both are 64-bit values: read
  as an \<open>int64\<close> the first is \<open>+value\<close> for a value below \<open>2^63\<close> (and \<open>value - 2^64\<close> from
  there on), the second \<open>-value\<close> for a value up to \<open>2^63\<close> (and \<open>2^64 - value\<close> above).
  If neither name is a transition, or the place wanted is missing, the step panics with
  "bad dsl var". (The net itself is left as it was: the transition stored back is the
  one read.)
\<close>

theorem weight_var_resolution:
  assumes "varType v = WeightVar"
  shows
    "(\<forall>t p x s.
        map_of (net_Transitions net) (Ref_Source v) = Some t \<and>
        map_of (net_Places net) (Ref_Target v) = Some p \<and>
        binding v = Some x \<and> slice_slot h (Delta t) (Offset p) = Inr s \<longrightarrow>
        StateMachine_var v net h = Inr (net, store_slot s x h) \<and>
        load_slot (store_slot s x h) s = x \<and>
        (unat x < 2 ^ 63 \<longrightarrow> sint (load_slot (store_slot s x h) s) = int (unat x)) \<and>
        (2 ^ 63 \<le> unat x \<longrightarrow> sint (load_slot (store_slot s x h) s) = int (unat x) - 2 ^ 64)) \<and>
     (\<forall>t p x s.
        map_of (net_Transitions net) (Ref_Source v) = None \<and>
        map_of (net_Transitions net) (Ref_Target v) = Some t \<and>
        map_of (net_Places net) (Ref_Source v) = Some p \<and>
        binding v = Some x \<and> slice_slot h (Delta t) (Offset p) = Inr s \<longrightarrow>
        StateMachine_var v net h = Inr (net, store_slot s (0 - x) h) \<and>
        load_slot (store_slot s (0 - x) h) s = 0 - x \<and>
        (unat x \<le> 2 ^ 63 \<longrightarrow> sint (load_slot (store_slot s (0 - x) h) s) = - int (unat x)) \<and>
        (2 ^ 63 < unat x \<longrightarrow>
           sint (load_slot (store_slot s (0 - x) h) s) = 2 ^ 64 - int (unat x))) \<and>
     (map_of (net_Transitions net) (Ref_Source v) = None \<and>
      map_of (net_Transitions net) (Ref_Target v) = None \<longrightarrow>
        StateMachine_var v net h = Inl BadDslVar) \<and>
     (\<forall>t. map_of (net_Transitions net) (Ref_Source v) = Some t \<and>
          map_of (net_Places net) (Ref_Target v) = None \<longrightarrow>
        StateMachine_var v net h = Inl BadDslVar) \<and>
     (\<forall>t. map_of (net_Transitions net) (Ref_Source v) = None \<and>
          map_of (net_Transitions net) (Ref_Target v) = Some t \<and>
          map_of (net_Places net) (Ref_Source v) = None \<longrightarrow>
        StateMachine_var v net h = Inl BadDslVar)"
proof -
  have produce: "\<forall>t p x s.
        map_of (net_Transitions net) (Ref_Source v) = Some t \<and>
        map_of (net_Places net) (Ref_Target v) = Some p \<and>
        binding v = Some x \<and> slice_slot h (Delta t) (Offset p) = Inr s \<longrightarrow>
        StateMachine_var v net h = Inr (net, store_slot s x h) \<and>
        load_slot (store_slot s x h) s = x \<and>
        (unat x < 2 ^ 63 \<longrightarrow> sint (load_slot (store_slot s x h) s) = int (unat x)) \<and>
        (2 ^ 63 \<le> unat x \<longrightarrow> sint (load_slot (store_slot s x h) s) = int (unat x) - 2 ^ 64)"
  proof (intro allI impI, elim conjE)
    fix t p x s
    assume t: "map_of (net_Transitions net) (Ref_Source v) = Some t"
      and p: "map_of (net_Places net) (Ref_Target v) = Some p"
      and x: "binding v = Some x"
      and s: "slice_slot h (Delta t) (Offset p) = Inr s"
    from s have valid: "fst s < length (delta_arrays h) \<and> snd s < length (delta_arrays h ! fst s)"
      by (auto simp: slice_slot_Inr)
    with assms t p x s
    have run: "StateMachine_var v net h = Inr (net, store_slot s x h)"
      by (simp add: StateMachine_var_def VarMap_Type_def assertOK_def VarMap_GetVal_def
          store_delta_def update_triv)
    from valid have stored: "load_slot (store_slot s x h) s = x"
      by (simp add: load_store_same)
    from sint_stored[of x]
    have "(unat x < 2 ^ 63 \<longrightarrow> sint (load_slot (store_slot s x h) s) = int (unat x)) \<and>
        (2 ^ 63 \<le> unat x \<longrightarrow> sint (load_slot (store_slot s x h) s) = int (unat x) - 2 ^ 64)"
      by (simp only: stored)
    with run stored
    show "StateMachine_var v net h = Inr (net, store_slot s x h) \<and>
        load_slot (store_slot s x h) s = x \<and>
        (unat x < 2 ^ 63 \<longrightarrow> sint (load_slot (store_slot s x h) s) = int (unat x)) \<and>
        (2 ^ 63 \<le> unat x \<longrightarrow> sint (load_slot (store_slot s x h) s) = int (unat x) - 2 ^ 64)"
      by blast
  qed
  have consume: "\<forall>t p x s.
        map_of (net_Transitions net) (Ref_Source v) = None \<and>
        map_of (net_Transitions net) (Ref_Target v) = Some t \<and>
        map_of (net_Places net) (Ref_Source v) = Some p \<and>
        binding v = Some x \<and> slice_slot h (Delta t) (Offset p) = Inr s \<longrightarrow>
        StateMachine_var v net h = Inr (net, store_slot s (0 - x) h) \<and>
        load_slot (store_slot s (0 - x) h) s = 0 - x \<and>
        (unat x \<le> 2 ^ 63 \<longrightarrow> sint (load_slot (store_slot s (0 - x) h) s) = - int (unat x)) \<and>
        (2 ^ 63 < unat x \<longrightarrow>
           sint (load_slot (store_slot s (0 - x) h) s) = 2 ^ 64 - int (unat x))"
  proof (intro allI impI, elim conjE)
    fix t p x s
    assume n: "map_of (net_Transitions net) (Ref_Source v) = None"
      and t: "map_of (net_Transitions net) (Ref_Target v) = Some t"
      and p: "map_of (net_Places net) (Ref_Source v) = Some p"
      and x: "binding v = Some x"
      and s: "slice_slot h (Delta t) (Offset p) = Inr s"
    from s have valid: "fst s < length (delta_arrays h) \<and> snd s < length (delta_arrays h ! fst s)"
      by (auto simp: slice_slot_Inr)
    with assms n t p x s
    have run: "StateMachine_var v net h = Inr (net, store_slot s (0 - x) h)"
      by (simp add: StateMachine_var_def VarMap_Type_def assertOK_def VarMap_GetVal_def
          store_delta_def update_triv)
    from valid have stored: "load_slot (store_slot s (0 - x) h) s = 0 - x"
      by (simp add: load_store_same)
    from sint_stored_negated[of x]
    have "(unat x \<le> 2 ^ 63 \<longrightarrow> sint (load_slot (store_slot s (0 - x) h) s) = - int (unat x)) \<and>
        (2 ^ 63 < unat x \<longrightarrow>
           sint (load_slot (store_slot s (0 - x) h) s) = 2 ^ 64 - int (unat x))"
      by (simp only: stored)
    with run stored
    show "StateMachine_var v net h = Inr (net, store_slot s (0 - x) h) \<and>
        load_slot (store_slot s (0 - x) h) s = 0 - x \<and>
        (unat x \<le> 2 ^ 63 \<longrightarrow> sint (load_slot (store_slot s (0 - x) h) s) = - int (unat x)) \<and>
        (2 ^ 63 < unat x \<longrightarrow>
           sint (load_slot (store_slot s (0 - x) h) s) = 2 ^ 64 - int (unat x))"
      by blast
  qed
  have neither: "map_of (net_Transitions net) (Ref_Source v) = None \<and>
      map_of (net_Transitions net) (Ref_Target v) = None \<longrightarrow>
        StateMachine_var v net h = Inl BadDslVar"
    using assms by (simp add: StateMachine_var_def VarMap_Type_def assertOK_def)
  have no_target_place: "\<forall>t. map_of (net_Transitions net) (Ref_Source v) = Some t \<and>
          map_of (net_Places net) (Ref_Target v) = None \<longrightarrow>
        StateMachine_var v net h = Inl BadDslVar"
    using assms by (simp add: StateMachine_var_def VarMap_Type_def assertOK_def)
  have no_source_place: "\<forall>t. map_of (net_Transitions net) (Ref_Source v) = None \<and>
          map_of (net_Transitions net) (Ref_Target v) = Some t \<and>
          map_of (net_Places net) (Ref_Source v) = None \<longrightarrow>
        StateMachine_var v net h = Inl BadDslVar"
    using assms by (simp add: StateMachine_var_def VarMap_Type_def assertOK_def)
  show ?thesis
    by (intro conjI) (fact produce consume neither no_target_place no_source_place)+
qed

lemma ex_net_slot: "slice_slot ex_frozen_heap (Delta (ex_transition\<lparr>Delta := Some 0\<rparr>)) (Offset ex_place) = Inr (0, 0)"
  by (simp add: slice_slot_def ex_frozen_heap_def ex_place_def)

theorem weight_var_resolution_witness:
  "varType ex_weight_var = WeightVar \<and>
   map_of (net_Transitions ex_net) (Ref_Source ex_weight_var) = Some (ex_transition\<lparr>Delta := Some 0\<rparr>) \<and>
   map_of (net_Places ex_net) (Ref_Target ex_weight_var) = Some ex_place \<and>
   StateMachine_var ex_weight_var ex_net ex_frozen_heap =
     Inr (ex_net, ex_frozen_heap\<lparr>delta_arrays := [[2]]\<rparr>) \<and>
   sint (load_slot (ex_frozen_heap\<lparr>delta_arrays := [[2]]\<rparr>) (0, 0)) = 2 \<and>
   varType ex_weight_var_in = WeightVar \<and>
   map_of (net_Transitions ex_net) (Ref_Source ex_weight_var_in) = None \<and>
   map_of (net_Transitions ex_net) (Ref_Target ex_weight_var_in) = Some (ex_transition\<lparr>Delta := Some 0\<rparr>) \<and>
   map_of (net_Places ex_net) (Ref_Source ex_weight_var_in) = Some ex_place \<and>
   StateMachine_var ex_weight_var_in ex_net ex_frozen_heap =
     Inr (ex_net, ex_frozen_heap\<lparr>delta_arrays := [[0 - 3]]\<rparr>) \<and>
   sint (load_slot (ex_frozen_heap\<lparr>delta_arrays := [[0 - 3]]\<rparr>) (0, 0)) = - 3 \<and>
   StateMachine_var (ex_weight_var\<lparr>Ref_Source := ''x'', Ref_Target := ''y''\<rparr>) ex_net ex_frozen_heap =
     Inl BadDslVar"
proof -
  have ty: "varType ex_weight_var = WeightVar" by (simp add: ex_weight_var_def)
  have t: "map_of (net_Transitions ex_net) (Ref_Source ex_weight_var) =
      Some (ex_transition\<lparr>Delta := Some 0\<rparr>)"
    by (simp add: ex_net_def ex_weight_var_def)
  have p: "map_of (net_Places ex_net) (Ref_Target ex_weight_var) = Some ex_place"
    by (simp add: ex_net_def ex_weight_var_def)
  have x: "binding ex_weight_var = Some 2" by (simp add: ex_weight_var_def)
  have st: "store_slot (0, 0) 2 ex_frozen_heap = ex_frozen_heap\<lparr>delta_arrays := [[2]]\<rparr>"
    by (simp add: store_slot_def ex_frozen_heap_def)
  have small: "unat (2 :: uint64) < 2 ^ 63" by simp
  from weight_var_resolution[OF ty, of ex_net ex_frozen_heap] t p x ex_net_slot small
  have "StateMachine_var ex_weight_var ex_net ex_frozen_heap =
          Inr (ex_net, store_slot (0, 0) 2 ex_frozen_heap) \<and>
        sint (load_slot (store_slot (0, 0) 2 ex_frozen_heap) (0, 0)) = int (unat (2 :: uint64))"
    by blast
  with st have out: "StateMachine_var ex_weight_var ex_net ex_frozen_heap =
      Inr (ex_net, ex_frozen_heap\<lparr>delta_arrays := [[2]]\<rparr>)"
    and out_int: "sint (load_slot (ex_frozen_heap\<lparr>delta_arrays := [[2]]\<rparr>) (0, 0)) = 2"
    by simp_all
  have ty': "varType ex_weight_var_in = WeightVar" by (simp add: ex_weight_var_in_def)
  have n': "map_of (net_Transitions ex_net) (Ref_Source ex_weight_var_in) = None"
    by (simp add: ex_net_def ex_weight_var_in_def)
  have t': "map_of (net_Transitions ex_net) (Ref_Target ex_weight_var_in) =
      Some (ex_transition\<lparr>Delta := Some 0\<rparr>)"
    by (simp add: ex_net_def ex_weight_var_in_def)
  have p': "map_of (net_Places ex_net) (Ref_Source ex_weight_var_in) = Some ex_place"
    by (simp add: ex_net_def ex_weight_var_in_def)
  have x': "binding ex_weight_var_in = Some 3" by (simp add: ex_weight_var_in_def)
  have st': "store_slot (0, 0) (0 - 3) ex_frozen_heap = ex_frozen_heap\<lparr>delta_arrays := [[0 - 3]]\<rparr>"
    by (simp add: store_slot_def ex_frozen_heap_def)
  have small': "unat (3 :: uint64) \<le> 2 ^ 63" by simp
  from weight_var_resolution[OF ty', of ex_net ex_frozen_heap] n' t' p' x' ex_net_slot small'
  have "StateMachine_var ex_weight_var_in ex_net ex_frozen_heap =
          Inr (ex_net, store_slot (0, 0) (0 - 3) ex_frozen_heap) \<and>
        sint (load_slot (store_slot (0, 0) (0 - 3) ex_frozen_heap) (0, 0)) = - int (unat (3 :: uint64))"
    by blast
  with st' have into: "StateMachine_var ex_weight_var_in ex_net ex_frozen_heap =
      Inr (ex_net, ex_frozen_heap\<lparr>delta_arrays := [[0 - 3]]\<rparr>)"
    and into_int: "sint (load_slot (ex_frozen_heap\<lparr>delta_arrays := [[0 - 3]]\<rparr>) (0, 0)) = - 3"
    by simp_all
  let ?v = "ex_weight_var\<lparr>Ref_Source := ''x'', Ref_Target := ''y''\<rparr>"
  have ty'': "varType ?v = WeightVar" by (simp add: ex_weight_var_def)
  have none: "map_of (net_Transitions ex_net) (Ref_Source ?v) = None \<and>
      map_of (net_Transitions ex_net) (Ref_Target ?v) = None"
    by (simp add: ex_net_def)
  from weight_var_resolution[OF ty'', of ex_net ex_frozen_heap] none
  have bad: "StateMachine_var ?v ex_net ex_frozen_heap = Inl BadDslVar" by blast
  show ?thesis
    by (intro conjI) (fact ty t p out out_int ty' n' t' p' into into_int bad)+
qed

text \<open>
  The claim as stated says that the delta is set to \<open>-value\<close> and to \<open>+value\<close>. It fails
  for the binding \<open>2^64 - 1\<close>: from the place to the transition the delta becomes \<open>1\<close>,
  from the transition to the place it becomes \<open>-1\<close>.
\<close>

theorem weight_binding_wraps_counterexample:
  "StateMachine_var (ex_weight_var_in\<lparr>binding := Some 18446744073709551615\<rparr>) ex_net ex_frozen_heap =
     Inr (ex_net, ex_frozen_heap\<lparr>delta_arrays := [[1]]\<rparr>) \<and>
   StateMachine_var (ex_weight_var\<lparr>binding := Some 18446744073709551615\<rparr>) ex_net ex_frozen_heap =
     Inr (ex_net, ex_frozen_heap\<lparr>delta_arrays := [[18446744073709551615]]\<rparr>) \<and>
   unat (18446744073709551615 :: uint64) = 18446744073709551615 \<and>
   sint (1 :: int64) = 1 \<and>
   sint (1 :: int64) \<noteq> - int (unat (18446744073709551615 :: uint64)) \<and>
   sint (18446744073709551615 :: int64) = - 1 \<and>
   sint (18446744073709551615 :: int64) \<noteq> int (unat (18446744073709551615 :: uint64))"
proof -
  have into:
    "StateMachine_var (ex_weight_var_in\<lparr>binding := Some 18446744073709551615\<rparr>) ex_net ex_frozen_heap =
     Inr (ex_net, ex_frozen_heap\<lparr>delta_arrays := [[1]]\<rparr>)"
    by (simp add: StateMachine_var_def VarMap_Type_def VarMap_GetVal_def assertOK_def
        store_delta_def slice_slot_def store_slot_def ex_weight_var_in_def ex_net_def
        ex_frozen_heap_def ex_place_def)
  have out:
    "StateMachine_var (ex_weight_var\<lparr>binding := Some 18446744073709551615\<rparr>) ex_net ex_frozen_heap =
     Inr (ex_net, ex_frozen_heap\<lparr>delta_arrays := [[18446744073709551615]]\<rparr>)"
    by (simp add: StateMachine_var_def VarMap_Type_def VarMap_GetVal_def assertOK_def
        store_delta_def slice_slot_def store_slot_def ex_weight_var_def ex_net_def
        ex_frozen_heap_def ex_place_def)
  have reads: "unat (18446744073709551615 :: uint64) = 18446744073709551615"
    "sint (1 :: int64) = 1"
    "sint (1 :: int64) \<noteq> - int (unat (18446744073709551615 :: uint64))"
    "sint (18446744073709551615 :: int64) = - 1"
    "sint (18446744073709551615 :: int64) \<noteq> int (unat (18446744073709551615 :: uint64))"
    by simp_all
  show ?thesis
    by (intro conjI) (fact into out reads)+
qed

section \<open>What the overlay changes\<close>

lemma StateMachine_var_frame:
  "StateMachine_var v net h = Inr (net', h') \<Longrightarrow>
     place_cells h' = place_cells h \<and> transition_cells h' = transition_cells h \<and>
     net_Transitions net' = net_Transitions net"
  by (auto simp: StateMachine_var_def assertOK_def VarMap_GetVal_def store_delta_def
      update_triv split: varType.splits option.splits sum.splits)

lemma StateMachine_vars_frame:
  "StateMachine_vars vs net h = Inr (net', h') \<Longrightarrow>
     place_cells h' = place_cells h \<and> transition_cells h' = transition_cells h \<and>
     net_Transitions net' = net_Transitions net"
proof (induction vs arbitrary: net h)
  case Nil
  then show ?case by simp
next
  case (Cons v vs)
  from Cons.prems obtain net1 h1 where
    step: "StateMachine_var v net h = Inr (net1, h1)" and
    rest: "StateMachine_vars vs net1 h1 = Inr (net', h')"
    by (auto split: sum.splits)
  from Cons.IH[OF rest] StateMachine_var_frame[OF step] show ?case by simp
qed

lemma Freeze_alloc_places: "Freeze_alloc n kts h = Inr h1 \<Longrightarrow> place_cells h1 = place_cells h"
  by (induction n kts h rule: Freeze_alloc.induct) (auto split: sum.splits)

lemma Freeze_arc_cells:
  "Freeze_arc a h = Inr h1 \<Longrightarrow>
     place_cells h1 = place_cells h \<and> transition_cells h1 = transition_cells h \<and>
     length (delta_arrays h1) = length (delta_arrays h)"
  by (auto simp: Freeze_arc_def split: if_splits sum.splits)

lemma Freeze_arcs_cells:
  "Freeze_arcs as h = Inr h1 \<Longrightarrow>
     place_cells h1 = place_cells h \<and> transition_cells h1 = transition_cells h \<and>
     length (delta_arrays h1) = length (delta_arrays h)"
proof (induction as arbitrary: h)
  case Nil
  then show ?case by simp
next
  case (Cons a as)
  from Cons.prems obtain h0 where
    step: "Freeze_arc a h = Inr h0" and rest: "Freeze_arcs as h0 = Inr h1"
    by (auto split: sum.splits)
  from Cons.IH[OF rest] Freeze_arc_cells[OF step] show ?case by simp
qed

lemma Freeze_places:
  assumes "MetaModel_Freeze m h = Inr (m1, h1)"
  shows "place_cells h1 = place_cells h"
proof -
  from assms obtain h0 where
    "Freeze_alloc (VectorSize m) (Transitions m) h = Inr h0" "Freeze_arcs (arcs m) h0 = Inr h1"
    by (auto simp: MetaModel_Freeze_def split: sum.splits)
  with Freeze_alloc_places[of "VectorSize m" "Transitions m" h h0] Freeze_arcs_cells[of "arcs m" h0 h1]
  show ?thesis by simp
qed

text \<open>
  C8 (as amended). The overlay patches the net that \<open>PTNet\<close> copied out of the model.
  The model's map of places and the place cells it points to are the same after
  \<open>StateMachine\<close> as before, so a net exported afterwards (and the document that
  \<open>ToAny\<close> encodes) shows the places without any Capacity or Initial patch. Its
  transitions are those of the overlaid net, slice for slice: the overlaid net shares its
  delta arrays with the model, so what a Weight patch wrote is what the model holds.
\<close>

theorem overlay_patches_the_copy:
  assumes "instance_StateMachine m h = Inr (net, m', h')"
  shows "Places m' = Places m \<and> place_cells h' = place_cells h \<and>
         (\<exists>net0. MetaModel_PTNet m' h' = Inr (net0, m', h') \<and>
                 net_Transitions net0 = net_Transitions net \<and>
                 copy_cells (place_cells h) (Places m) = Inr (net_Places net0) \<and>
                 (\<forall>d. document_of m' h' = Inr d \<longrightarrow> d_places d = net_Places net0))"
proof -
  from assms obtain m1 h1 net0 h2 where
    frz: "MetaModel_Freeze m h = Inr (m1, h1)" and
    exp: "MetaModel_PTNet m1 h1 = Inr (net0, m', h2)" and
    ovl: "StateMachine_vars (vars m') net0 h2 = Inr (net, h')"
    by (auto simp: instance_StateMachine_def split: sum.splits)
  from frz have m1: "m1 = m\<lparr>frozen := True\<rparr>" by (rule Freeze_Inr)
  then have fr: "frozen m1" by simp
  from exp fr obtain ps ts where
    ps: "copy_cells (place_cells h1) (Places m1) = Inr ps" and
    ts: "copy_cells (transition_cells h1) (Transitions m1) = Inr ts" and
    net0: "net0 = \<lparr>net_Places = ps, net_Transitions = ts\<rparr>" and same: "m' = m1" "h2 = h1"
    by (auto simp: PTNet_frozen split: sum.splits)
  from StateMachine_vars_frame[OF ovl] same
  have frame: "place_cells h' = place_cells h1" "transition_cells h' = transition_cells h1"
    "net_Transitions net = net_Transitions net0"
    by simp_all
  from Freeze_places[OF frz] have pc: "place_cells h1 = place_cells h" .
  have again: "MetaModel_PTNet m' h' = Inr (net0, m', h')"
    using fr same ps ts net0 frame by (simp add: PTNet_frozen)
  have doc: "\<forall>d. document_of m' h' = Inr d \<longrightarrow> d_places d = net_Places net0"
    using same ps net0 frame by (auto simp: document_of_def split: sum.splits)
  from m1 same have "Places m' = Places m" by simp
  moreover from frame pc have "place_cells h' = place_cells h" by simp
  moreover from ps pc m1 net0 have "copy_cells (place_cells h) (Places m) = Inr (net_Places net0)"
    by simp
  ultimately show ?thesis using again frame doc by auto
qed

lemma ex_capacity_overlay:
  "instance_StateMachine (ex_model\<lparr>vars := [ex_capacity_var]\<rparr>) ex_heap =
     Inr (ex_net\<lparr>net_Places := [(''p'', ex_place\<lparr>Capacity := 5\<rparr>)]\<rparr>,
          ex_model\<lparr>vars := [ex_capacity_var], frozen := True\<rparr>, ex_frozen_heap)"
  by (simp add: instance_StateMachine_def MetaModel_Freeze_def MetaModel_PTNet_def
      StateMachine_var_def VarMap_Type_def VarMap_GetVal_def assertOK_def deref_def
      ex_model_def ex_heap_def ex_frozen_heap_def ex_net_def ex_capacity_var_def)

lemma ex_capacity_export:
  "MetaModel_PTNet (ex_model\<lparr>vars := [ex_capacity_var], frozen := True\<rparr>) ex_frozen_heap =
     Inr (ex_net, ex_model\<lparr>vars := [ex_capacity_var], frozen := True\<rparr>, ex_frozen_heap)"
  by (simp add: MetaModel_PTNet_def deref_def ex_model_def ex_frozen_heap_def ex_net_def)

theorem overlay_patches_the_copy_witness:
  "instance_StateMachine (ex_model\<lparr>vars := [ex_capacity_var]\<rparr>) ex_heap =
     Inr (ex_net\<lparr>net_Places := [(''p'', ex_place\<lparr>Capacity := 5\<rparr>)]\<rparr>,
          ex_model\<lparr>vars := [ex_capacity_var], frozen := True\<rparr>, ex_frozen_heap) \<and>
   Places (ex_model\<lparr>vars := [ex_capacity_var], frozen := True\<rparr>) =
     Places (ex_model\<lparr>vars := [ex_capacity_var]\<rparr>) \<and>
   place_cells ex_frozen_heap = place_cells ex_heap"
  using overlay_patches_the_copy[OF ex_capacity_overlay] ex_capacity_overlay by blast

text \<open>
  The claim as stated fails for a Capacity patch: the overlaid net has capacity 5 for
  \<open>p\<close>, the place cell of the model still has 0, and so has the net exported next.
\<close>

theorem capacity_patch_counterexample:
  "instance_StateMachine (ex_model\<lparr>vars := [ex_capacity_var]\<rparr>) ex_heap =
     Inr (ex_net\<lparr>net_Places := [(''p'', ex_place\<lparr>Capacity := 5\<rparr>)]\<rparr>,
          ex_model\<lparr>vars := [ex_capacity_var], frozen := True\<rparr>, ex_frozen_heap) \<and>
   MetaModel_PTNet (ex_model\<lparr>vars := [ex_capacity_var], frozen := True\<rparr>) ex_frozen_heap =
     Inr (ex_net, ex_model\<lparr>vars := [ex_capacity_var], frozen := True\<rparr>, ex_frozen_heap) \<and>
   map_of (net_Places ex_net) ''p'' = Some ex_place \<and> Capacity ex_place = 0 \<and>
   place_cells ex_frozen_heap = [ex_place]"
  by (simp add: ex_capacity_overlay ex_capacity_export)
     (simp add: ex_net_def ex_place_def ex_frozen_heap_def)

section \<open>Folding the ledger\<close>

lemma Freeze_arc_Inr:
  "Freeze_arc a h = Inr h' \<longleftrightarrow>
     (\<exists>t p s. arc_nodes a = Some (t, p) \<and> delta_slot h t p = Inr s \<and>
              h' = store_slot s (arc_value a) h)"
  by (auto simp: Freeze_arc_def arc_nodes_def arc_value_def split: sum.splits)

lemma Freeze_arcs_slot:
  "Freeze_arcs as h = Inr h' \<Longrightarrow> delta_slot h' t p = delta_slot h t p"
proof (induction as arbitrary: h)
  case Nil
  then show ?case by simp
next
  case (Cons a as)
  from Cons.prems obtain h0 where
    step: "Freeze_arc a h = Inr h0" and rest: "Freeze_arcs as h0 = Inr h'"
    by (auto split: sum.splits)
  from step have "delta_slot h0 t p = delta_slot h t p"
    by (auto simp: Freeze_arc_Inr)
  with Cons.IH[OF rest] show ?case by simp
qed

lemma Freeze_arcs_untouched:
  "Freeze_arcs as h = Inr h' \<Longrightarrow>
     (\<forall>a\<in>set as. \<forall>t p. arc_nodes a = Some (t, p) \<longrightarrow> delta_slot h t p \<noteq> Inr s) \<Longrightarrow>
     load_slot h' s = load_slot h s"
proof (induction as arbitrary: h)
  case Nil
  then show ?case by simp
next
  case (Cons a as)
  from Cons.prems(1) obtain h0 where
    step: "Freeze_arc a h = Inr h0" and rest: "Freeze_arcs as h0 = Inr h'"
    by (auto split: sum.splits)
  from step obtain t0 p0 s0 where
    a: "arc_nodes a = Some (t0, p0)" and s0: "delta_slot h t0 p0 = Inr s0" and
    h0: "h0 = store_slot s0 (arc_value a) h"
    by (auto simp: Freeze_arc_Inr)
  from Cons.prems(2) a s0 have ne: "s \<noteq> s0" by auto
  have "\<forall>a\<in>set as. \<forall>t p. arc_nodes a = Some (t, p) \<longrightarrow> delta_slot h0 t p \<noteq> Inr s"
    using Cons.prems(2) h0 by simp
  from Cons.IH[OF rest this] have "load_slot h' s = load_slot h0 s" .
  also from ne h0 have "\<dots> = load_slot h s" by (simp add: load_store_other)
  finally show ?case .
qed

lemma Freeze_arcs_last_write:
  "Freeze_arcs as h = Inr h' \<Longrightarrow> i < length as \<Longrightarrow> arc_nodes (as ! i) = Some (t, p) \<Longrightarrow>
     (\<forall>j. i < j \<and> j < length as \<longrightarrow>
        (\<forall>t' p'. arc_nodes (as ! j) = Some (t', p') \<longrightarrow> delta_slot h t' p' \<noteq> delta_slot h t p)) \<Longrightarrow>
     (\<exists>s. delta_slot h t p = Inr s \<and> load_slot h' s = arc_value (as ! i))"
proof (induction as arbitrary: h i)
  case Nil
  then show ?case by simp
next
  case (Cons a as)
  from Cons.prems(1) obtain h0 where
    step: "Freeze_arc a h = Inr h0" and rest: "Freeze_arcs as h0 = Inr h'"
    by (auto split: sum.splits)
  from step obtain t0 p0 s0 where
    a: "arc_nodes a = Some (t0, p0)" and s0: "delta_slot h t0 p0 = Inr s0" and
    h0: "h0 = store_slot s0 (arc_value a) h"
    by (auto simp: Freeze_arc_Inr)
  have same: "\<And>t p. delta_slot h0 t p = delta_slot h t p"
    using h0 by simp
  show ?case
  proof (cases i)
    case 0
    with Cons.prems(3) a have tp: "t0 = t" "p0 = p" by simp_all
    have "\<forall>b\<in>set as. \<forall>t' p'. arc_nodes b = Some (t', p') \<longrightarrow> delta_slot h0 t' p' \<noteq> Inr s0"
    proof (intro ballI allI impI)
      fix b t' p'
      assume "b \<in> set as" and b: "arc_nodes b = Some (t', p')"
      then obtain j where "j < length as" "as ! j = b"
        by (auto simp: in_set_conv_nth)
      with Cons.prems(4)[rule_format, of "Suc j" t' p'] 0 b
      have "delta_slot h t' p' \<noteq> delta_slot h t p" by simp
      with s0 tp same show "delta_slot h0 t' p' \<noteq> Inr s0" by simp
    qed
    from Freeze_arcs_untouched[OF rest this] have "load_slot h' s0 = load_slot h0 s0" .
    also from h0 delta_slot_valid[OF s0] have "\<dots> = arc_value a"
      by (simp add: load_store_same)
    finally show ?thesis using 0 s0 tp by auto
  next
    case (Suc k)
    with Cons.prems have k: "k < length as" and nodes: "arc_nodes (as ! k) = Some (t, p)"
      by simp_all
    have "\<forall>j. k < j \<and> j < length as \<longrightarrow>
        (\<forall>t' p'. arc_nodes (as ! j) = Some (t', p') \<longrightarrow> delta_slot h0 t' p' \<noteq> delta_slot h0 t p)"
    proof (intro allI impI)
      fix j t' p'
      assume "k < j \<and> j < length as" and "arc_nodes (as ! j) = Some (t', p')"
      with Cons.prems(4)[rule_format, of "Suc j" t' p'] Suc same
      show "delta_slot h0 t' p' \<noteq> delta_slot h0 t p" by simp
    qed
    from Cons.IH[OF rest k nodes this] same Suc show ?thesis by simp
  qed
qed

lemma Freeze_alloc_shape:
  "Freeze_alloc n kts h = Inr h1 \<Longrightarrow>
     length (transition_cells h1) = length (transition_cells h) \<and>
     delta_arrays h1 = delta_arrays h @ replicate (length kts) (replicate n 0) \<and>
     (\<forall>c. c \<notin> snd ` set kts \<longrightarrow> transition_cells h1 ! c = transition_cells h ! c) \<and>
     (\<forall>c. Role (transition_cells h1 ! c) = Role (transition_cells h ! c)) \<and>
     (\<forall>c\<in>snd ` set kts. c < length (transition_cells h) \<and>
        (\<exists>d. Delta (transition_cells h1 ! c) = Some d \<and> length (delta_arrays h) \<le> d \<and>
             d < length (delta_arrays h) + length kts)) \<and>
     (\<forall>c\<in>snd ` set kts. \<forall>c'\<in>snd ` set kts.
        Delta (transition_cells h1 ! c) = Delta (transition_cells h1 ! c') \<longrightarrow> c = c')"
proof (induction kts arbitrary: h)
  case Nil
  then show ?case by simp
next
  case (Cons kt kts)
  obtain k t where kt: "kt = (k, t)" by (cases kt)
  define L where "L = length (delta_arrays h)"
  define h0 where "h0 =
    h\<lparr>transition_cells :=
        (transition_cells h)[t := (transition_cells h ! t)\<lparr>Delta := Some L\<rparr>],
      delta_arrays := delta_arrays h @ [replicate n 0]\<rparr>"
  from Cons.prems kt have t: "t < length (transition_cells h)"
    and rest: "Freeze_alloc n kts h0 = Inr h1"
    by (auto simp: deref_def h0_def L_def split: if_splits)
  note IH = Cons.IH[OF rest]
  have len0: "length (transition_cells h0) = length (transition_cells h)"
    and arr0: "delta_arrays h0 = delta_arrays h @ [replicate n 0]"
    by (simp_all add: h0_def)
  have cell0: "\<And>c. transition_cells h0 ! c =
      (if c = t then (transition_cells h ! t)\<lparr>Delta := Some L\<rparr> else transition_cells h ! c)"
    using t by (simp add: h0_def nth_list_update)
  have len: "length (transition_cells h1) = length (transition_cells h)"
    using IH len0 by simp
  have arr: "delta_arrays h1 = delta_arrays h @ replicate (length (kt # kts)) (replicate n 0)"
    using IH arr0 by (simp add: replicate_app_Cons_same)
  have unchanged: "\<forall>c. c \<notin> snd ` set (kt # kts) \<longrightarrow> transition_cells h1 ! c = transition_cells h ! c"
    using IH cell0 kt by auto
  have role: "\<forall>c. Role (transition_cells h1 ! c) = Role (transition_cells h ! c)"
    using IH cell0 by auto
  have head: "t \<notin> snd ` set kts \<Longrightarrow> Delta (transition_cells h1 ! t) = Some L"
    using IH cell0 by auto
  have tail: "\<And>c. c \<in> snd ` set kts \<Longrightarrow>
      c < length (transition_cells h) \<and>
      (\<exists>d. Delta (transition_cells h1 ! c) = Some d \<and> L + 1 \<le> d \<and> d < L + 1 + length kts)"
    using IH len0 arr0 by (auto simp: L_def)
  have fresh: "\<forall>c\<in>snd ` set (kt # kts). c < length (transition_cells h) \<and>
        (\<exists>d. Delta (transition_cells h1 ! c) = Some d \<and> length (delta_arrays h) \<le> d \<and>
             d < length (delta_arrays h) + length (kt # kts))"
  proof
    fix c assume "c \<in> snd ` set (kt # kts)"
    then consider "c \<in> snd ` set kts" | "c = t" "t \<notin> snd ` set kts"
      using kt by auto
    then show "c < length (transition_cells h) \<and>
        (\<exists>d. Delta (transition_cells h1 ! c) = Some d \<and> length (delta_arrays h) \<le> d \<and>
             d < length (delta_arrays h) + length (kt # kts))"
    proof cases
      case 1
      from tail[OF 1] show ?thesis by (auto simp: L_def)
    next
      case 2
      with head t show ?thesis by (simp add: L_def)
    qed
  qed
  have distinct: "\<forall>c\<in>snd ` set (kt # kts). \<forall>c'\<in>snd ` set (kt # kts).
        Delta (transition_cells h1 ! c) = Delta (transition_cells h1 ! c') \<longrightarrow> c = c'"
  proof (intro ballI impI)
    fix c c'
    assume c: "c \<in> snd ` set (kt # kts)" and c': "c' \<in> snd ` set (kt # kts)"
      and eq: "Delta (transition_cells h1 ! c) = Delta (transition_cells h1 ! c')"
    show "c = c'"
    proof (cases "c \<in> snd ` set kts")
      case True
      note cT = True
      show ?thesis
      proof (cases "c' \<in> snd ` set kts")
        case True
        with cT eq IH show ?thesis by blast
      next
        case False
        with c' kt have "c' = t" "t \<notin> snd ` set kts" by auto
        with head tail[OF cT] eq show ?thesis by auto
      qed
    next
      case False
      with c kt have ct: "c = t" "t \<notin> snd ` set kts" by auto
      show ?thesis
      proof (cases "c' \<in> snd ` set kts")
        case True
        with head tail[OF True] eq ct show ?thesis by auto
      next
        case False
        with c' kt ct show ?thesis by auto
      qed
    qed
  qed
  from len arr unchanged role fresh distinct show ?case by blast
qed

lemma delta_slot_Inr:
  "delta_slot h t p = Inr s \<longleftrightarrow>
     (\<exists>c q d. Transition_ptr t = Some c \<and> c < length (transition_cells h) \<and>
        Place_ptr p = Some q \<and> q < length (place_cells h) \<and>
        Delta (transition_cells h ! c) = Some d \<and> d < length (delta_arrays h) \<and>
        Offset (place_cells h ! q) < length (delta_arrays h ! d) \<and>
        s = (d, Offset (place_cells h ! q)))"
  by (auto simp: delta_slot_def deref_ptr_def deref_def slice_slot_Inr
      split: sum.splits option.splits if_splits)

lemma Freeze_arcs_resolve:
  "Freeze_arcs as h = Inr h' \<Longrightarrow> a \<in> set as \<Longrightarrow>
     \<exists>t p s. arc_nodes a = Some (t, p) \<and> delta_slot h t p = Inr s"
proof (induction as arbitrary: h)
  case Nil
  then show ?case by simp
next
  case (Cons b as)
  from Cons.prems(1) obtain h0 where
    step: "Freeze_arc b h = Inr h0" and rest: "Freeze_arcs as h0 = Inr h'"
    by (auto split: sum.splits)
  from step obtain t0 p0 s0 where
    b: "arc_nodes b = Some (t0, p0)" "delta_slot h t0 p0 = Inr s0" and
    h0: "h0 = store_slot s0 (arc_value b) h"
    by (auto simp: Freeze_arc_Inr)
  show ?case
  proof (cases "a = b")
    case True
    with b show ?thesis by blast
  next
    case False
    with Cons.prems(2) have "a \<in> set as" by simp
    from Cons.IH[OF rest this] h0 show ?thesis by simp
  qed
qed

text \<open>
  C1 (as amended). Let \<open>Freeze\<close> succeed on a model whose places have pairwise different
  offsets and whose arcs touch registered transitions only. Take any arc of the ledger
  such that no arc declared after it, normal or inhibitor, joins the same place and
  transition. Then the delta of its transition, at the offset of its place, is
  \<open>0 - weight\<close> if the arc runs from the place to the transition and \<open>weight\<close> if it runs
  from the transition to the place, as 64-bit values: whatever earlier arcs on the pair
  wrote is overwritten, nothing is summed. Read as an \<open>int64\<close> this is \<open>-w\<close> for a
  weight \<open>w\<close> up to \<open>2^63\<close> and \<open>+w\<close> for a weight below \<open>2^63\<close>.
\<close>

theorem freeze_last_arc_wins:
  assumes frz: "MetaModel_Freeze m h = Inr (m', h')"
    and inj: "\<forall>p q. p < length (place_cells h) \<and> q < length (place_cells h) \<and>
                Offset (place_cells h ! p) = Offset (place_cells h ! q) \<longrightarrow> p = q"
    and reg: "\<forall>a\<in>set (arcs m). \<forall>t p. arc_nodes a = Some (t, p) \<longrightarrow>
                (\<exists>c\<in>snd ` set (Transitions m). Transition_ptr t = Some c)"
    and i: "i < length (arcs m)"
    and last: "\<forall>j. i < j \<and> j < length (arcs m) \<longrightarrow> arc_pair (arcs m ! j) \<noteq> arc_pair (arcs m ! i)"
  shows "\<exists>t p c q d.
           arc_nodes (arcs m ! i) = Some (t, p) \<and>
           Transition_ptr t = Some c \<and> Place_ptr p = Some q \<and>
           Delta (transition_cells h' ! c) = Some d \<and>
           delta_arrays h' ! d ! Offset (place_cells h' ! q) = arc_value (arcs m ! i) \<and>
           (Node_IsPlace (Source (arcs m ! i)) \<and> Node_IsTransition (Target (arcs m ! i)) \<longrightarrow>
              p = Source (arcs m ! i) \<and> t = Target (arcs m ! i) \<and>
              arc_value (arcs m ! i) = 0 - Weight (arcs m ! i) \<and>
              (unat (Weight (arcs m ! i)) \<le> 2 ^ 63 \<longrightarrow>
                 sint (arc_value (arcs m ! i)) = - int (unat (Weight (arcs m ! i))))) \<and>
           (\<not> (Node_IsPlace (Source (arcs m ! i)) \<and> Node_IsTransition (Target (arcs m ! i))) \<longrightarrow>
              t = Source (arcs m ! i) \<and> p = Target (arcs m ! i) \<and>
              arc_value (arcs m ! i) = Weight (arcs m ! i) \<and>
              (unat (Weight (arcs m ! i)) < 2 ^ 63 \<longrightarrow>
                 sint (arc_value (arcs m ! i)) = int (unat (Weight (arcs m ! i)))))"
proof -
  define a where "a = arcs m ! i"
  from frz obtain h1 where
    alloc: "Freeze_alloc (VectorSize m) (Transitions m) h = Inr h1" and
    fold: "Freeze_arcs (arcs m) h1 = Inr h'"
    by (auto simp: MetaModel_Freeze_def split: sum.splits)
  note shape = Freeze_alloc_shape[OF alloc]
  from Freeze_alloc_places[OF alloc] have places: "place_cells h1 = place_cells h" .
  from i have a_in: "a \<in> set (arcs m)" by (simp add: a_def)
  from Freeze_arcs_resolve[OF fold a_in] obtain t p s where
    nodes: "arc_nodes a = Some (t, p)" and slot: "delta_slot h1 t p = Inr s"
    by blast
  from slot obtain c q d where
    c: "Transition_ptr t = Some c" and q: "Place_ptr p = Some q" "q < length (place_cells h1)" and
    d: "Delta (transition_cells h1 ! c) = Some d" and s: "s = (d, Offset (place_cells h1 ! q))"
    by (auto simp: delta_slot_Inr)
  from reg a_in nodes c have c_reg: "c \<in> snd ` set (Transitions m)" by fastforce
  have later: "\<forall>j. i < j \<and> j < length (arcs m) \<longrightarrow>
        (\<forall>t' p'. arc_nodes (arcs m ! j) = Some (t', p') \<longrightarrow> delta_slot h1 t' p' \<noteq> delta_slot h1 t p)"
  proof (intro allI impI)
    fix j t' p'
    assume j: "i < j \<and> j < length (arcs m)" and nodes': "arc_nodes (arcs m ! j) = Some (t', p')"
    show "delta_slot h1 t' p' \<noteq> delta_slot h1 t p"
    proof
      assume "delta_slot h1 t' p' = delta_slot h1 t p"
      with slot have "delta_slot h1 t' p' = Inr s" by simp
      then obtain c' q' d' where
        c': "Transition_ptr t' = Some c'" and
        q': "Place_ptr p' = Some q'" "q' < length (place_cells h1)" and
        d': "Delta (transition_cells h1 ! c') = Some d'" and
        s': "s = (d', Offset (place_cells h1 ! q'))"
        by (auto simp: delta_slot_Inr)
      from j have "arcs m ! j \<in> set (arcs m)" by simp
      with reg nodes' c' have c'_reg: "c' \<in> snd ` set (Transitions m)" by fastforce
      from s s' d d' have "Delta (transition_cells h1 ! c) = Delta (transition_cells h1 ! c')"
        by simp
      with shape c_reg c'_reg have "c = c'" by blast
      moreover from s s' q q' inj places have "q = q'" by simp
      ultimately have "arc_pair (arcs m ! j) = arc_pair a"
        using nodes nodes' c c' q q' by (simp add: arc_pair_def)
      with last j show False by (simp add: a_def)
    qed
  qed
  from Freeze_arcs_last_write[OF fold i nodes[unfolded a_def] later] slot
  have stored: "load_slot h' s = arc_value a" by (simp add: a_def)
  from Freeze_arcs_cells[OF fold]
  have cells: "place_cells h' = place_cells h1" "transition_cells h' = transition_cells h1"
    by simp_all
  have read: "delta_arrays h' ! d ! Offset (place_cells h' ! q) = arc_value a"
    using stored s cells by (simp add: load_slot_def)
  have consume: "Node_IsPlace (Source a) \<and> Node_IsTransition (Target a) \<longrightarrow>
      p = Source a \<and> t = Target a \<and> arc_value a = 0 - Weight a \<and>
      (unat (Weight a) \<le> 2 ^ 63 \<longrightarrow> sint (arc_value a) = - int (unat (Weight a)))"
  proof
    assume o: "Node_IsPlace (Source a) \<and> Node_IsTransition (Target a)"
    with nodes have tp: "p = Source a \<and> t = Target a" by (simp add: arc_nodes_def)
    from o have v: "arc_value a = 0 - Weight a" by (simp add: arc_value_def)
    have "unat (Weight a) \<le> 2 ^ 63 \<longrightarrow> sint (arc_value a) = - int (unat (Weight a))"
      unfolding v by (rule impI) (rule sint_negated)
    with tp v show "p = Source a \<and> t = Target a \<and> arc_value a = 0 - Weight a \<and>
      (unat (Weight a) \<le> 2 ^ 63 \<longrightarrow> sint (arc_value a) = - int (unat (Weight a)))"
      by blast
  qed
  have produce: "\<not> (Node_IsPlace (Source a) \<and> Node_IsTransition (Target a)) \<longrightarrow>
      t = Source a \<and> p = Target a \<and> arc_value a = Weight a \<and>
      (unat (Weight a) < 2 ^ 63 \<longrightarrow> sint (arc_value a) = int (unat (Weight a)))"
  proof
    assume o: "\<not> (Node_IsPlace (Source a) \<and> Node_IsTransition (Target a))"
    with nodes have tp: "t = Source a \<and> p = Target a"
      by (auto simp: arc_nodes_def split: if_splits)
    from o have v: "arc_value a = Weight a" by (auto simp: arc_value_def)
    have "unat (Weight a) < 2 ^ 63 \<longrightarrow> sint (arc_value a) = int (unat (Weight a))"
      unfolding v by (rule impI) (rule sint_small)
    with tp v show "t = Source a \<and> p = Target a \<and> arc_value a = Weight a \<and>
      (unat (Weight a) < 2 ^ 63 \<longrightarrow> sint (arc_value a) = int (unat (Weight a)))"
      by blast
  qed
  from d cells have d_after: "Delta (transition_cells h' ! c) = Some d" by simp
  from nodes c q(1) d_after read consume produce show ?thesis
    unfolding a_def by blast
qed

lemma declared_offsets_injective:
  assumes "declare_places ds (New schema) empty_heap = Inr (ns, m, h)"
  shows "\<forall>p q. p < length (place_cells h) \<and> q < length (place_cells h) \<and>
           Offset (place_cells h ! p) = Offset (place_cells h ! q) \<longrightarrow> p = q"
proof -
  from declare_places_shape[OF assms] have len: "length (place_cells h) = length ds"
    by (simp add: empty_heap_def)
  have "\<And>i. i < length ds \<Longrightarrow> Offset (place_cells h ! i) = i"
    using declare_places_cells[OF assms] by (simp add: empty_heap_def New_def)
  with len show ?thesis by metis
qed

lemma ex_two_arcs_freeze:
  "MetaModel_Freeze (ex_model\<lparr>arcs := [ex_consume, ex_produce]\<rparr>) ex_heap =
     Inr (ex_model\<lparr>arcs := [ex_consume, ex_produce], frozen := True\<rparr>,
          ex_frozen_heap\<lparr>delta_arrays := [[3]]\<rparr>)"
  by (simp add: MetaModel_Freeze_def Freeze_arc_def delta_slot_def slice_slot_def
      deref_ptr_def deref_def store_slot_def Node_IsPlace_def Node_IsTransition_def
      ex_model_def ex_heap_def ex_frozen_heap_def ex_p_def ex_t_def ex_place_def
      ex_consume_def ex_produce_def)

theorem freeze_last_arc_wins_witness:
  "MetaModel_Freeze (ex_model\<lparr>arcs := [ex_consume, ex_produce]\<rparr>) ex_heap =
     Inr (ex_model\<lparr>arcs := [ex_consume, ex_produce], frozen := True\<rparr>,
          ex_frozen_heap\<lparr>delta_arrays := [[3]]\<rparr>) \<and>
   arc_pair ex_consume = arc_pair ex_produce \<and>
   arc_value ex_consume = 0 - 1 \<and> arc_value ex_produce = 3 \<and>
   delta_arrays (ex_frozen_heap\<lparr>delta_arrays := [[3]]\<rparr>) ! 0 ! 0 = arc_value ex_produce"
proof -
  let ?m = "ex_model\<lparr>arcs := [ex_consume, ex_produce]\<rparr>"
  let ?h' = "ex_frozen_heap\<lparr>delta_arrays := [[3]]\<rparr>"
  have inj: "\<forall>p q. p < length (place_cells ex_heap) \<and> q < length (place_cells ex_heap) \<and>
                Offset (place_cells ex_heap ! p) = Offset (place_cells ex_heap ! q) \<longrightarrow> p = q"
    by (simp add: ex_heap_def)
  have nodes: "arc_nodes ex_consume = Some (ex_t, ex_p)" "arc_nodes ex_produce = Some (ex_t, ex_p)"
    by (simp_all add: arc_nodes_def ex_consume_def ex_produce_def ex_p_def ex_t_def
        Node_IsPlace_def Node_IsTransition_def)
  have reg: "\<forall>a\<in>set (arcs ?m). \<forall>t p. arc_nodes a = Some (t, p) \<longrightarrow>
                (\<exists>c\<in>snd ` set (Transitions ?m). Transition_ptr t = Some c)"
    by (auto simp: nodes ex_model_def ex_t_def)
  have i: "1 < length (arcs ?m)" by simp
  have last: "\<forall>j. 1 < j \<and> j < length (arcs ?m) \<longrightarrow> arc_pair (arcs ?m ! j) \<noteq> arc_pair (arcs ?m ! 1)"
    by simp
  from freeze_last_arc_wins[OF ex_two_arcs_freeze inj reg i last]
  obtain t p c q d where
    r: "arc_nodes (arcs ?m ! 1) = Some (t, p)" "Transition_ptr t = Some c" "Place_ptr p = Some q"
      "Delta (transition_cells ?h' ! c) = Some d"
      "delta_arrays ?h' ! d ! Offset (place_cells ?h' ! q) = arc_value (arcs ?m ! 1)"
    by blast
  from r(1) nodes have "t = ex_t" "p = ex_p" by simp_all
  with r(2,3) have "c = 0" "q = 0" by (simp_all add: ex_t_def ex_p_def)
  with r(4) have "d = 0" by (simp add: ex_frozen_heap_def)
  with r(5) \<open>q = 0\<close> have "delta_arrays ?h' ! 0 ! 0 = arc_value ex_produce"
    by (simp add: ex_frozen_heap_def ex_place_def)
  moreover have "arc_pair ex_consume = arc_pair ex_produce"
    by (simp add: arc_pair_def nodes)
  moreover have "arc_value ex_consume = 0 - 1" "arc_value ex_produce = 3"
    by (simp_all add: arc_value_def ex_consume_def ex_produce_def ex_p_def ex_t_def
        Node_IsPlace_def Node_IsTransition_def)
  ultimately show ?thesis using ex_two_arcs_freeze by simp
qed

text \<open>
  The claim as stated reads "the last normal arc". It fails when an inhibitor arc on the
  same pair is declared later: the normal arc from \<open>p\<close> to \<open>t\<close> has weight 1, the
  inhibitor declared after it weight 5, and the delta after \<open>Freeze\<close> is \<open>0 - 5\<close>.
\<close>

theorem inhibitor_after_normal_arc_counterexample:
  "Node_TX ex_p 1 ex_t ex_model = Inr (ex_model\<lparr>arcs := [ex_consume]\<rparr>) \<and>
   Node_Inhibitor ex_p 5 ex_t (ex_model\<lparr>arcs := [ex_consume]\<rparr>) =
     Inr (ex_model\<lparr>arcs := [ex_consume, ex_inhibit]\<rparr>) \<and>
   MetaModel_Freeze (ex_model\<lparr>arcs := [ex_consume, ex_inhibit]\<rparr>) ex_heap =
     Inr (ex_model\<lparr>arcs := [ex_consume, ex_inhibit], frozen := True\<rparr>,
          ex_frozen_heap\<lparr>delta_arrays := [[0 - 5]]\<rparr>) \<and>
   Type ex_consume = ARC \<and> Type ex_inhibit = INHIBITOR \<and>
   arc_pair ex_consume = arc_pair ex_inhibit \<and>
   arc_value ex_consume = 0 - 1 \<and> (0 - 5 :: int64) \<noteq> 0 - 1"
proof -
  have tx: "Node_TX ex_p 1 ex_t ex_model = Inr (ex_model\<lparr>arcs := [ex_consume]\<rparr>)"
    by (simp add: Node_TX_def Node_arcFactory_def MetaModel_AppendArc_def ex_consume_def
        ex_p_def ex_model_def)
  have inh: "Node_Inhibitor ex_p 5 ex_t (ex_model\<lparr>arcs := [ex_consume]\<rparr>) =
     Inr (ex_model\<lparr>arcs := [ex_consume, ex_inhibit]\<rparr>)"
    by (simp add: Node_Inhibitor_def Node_arcFactory_def MetaModel_AppendArc_def
        Node_IsPlace_def Node_IsTransition_def ex_inhibit_def ex_p_def ex_t_def ex_model_def)
  have frz: "MetaModel_Freeze (ex_model\<lparr>arcs := [ex_consume, ex_inhibit]\<rparr>) ex_heap =
     Inr (ex_model\<lparr>arcs := [ex_consume, ex_inhibit], frozen := True\<rparr>,
          ex_frozen_heap\<lparr>delta_arrays := [[0 - 5]]\<rparr>)"
    by (simp add: MetaModel_Freeze_def Freeze_arc_def delta_slot_def slice_slot_def
        deref_ptr_def deref_def store_slot_def Node_IsPlace_def Node_IsTransition_def
        ex_model_def ex_heap_def ex_frozen_heap_def ex_p_def ex_t_def ex_place_def
        ex_consume_def ex_inhibit_def)
  have rest: "Type ex_consume = ARC \<and> Type ex_inhibit = INHIBITOR \<and>
      arc_pair ex_consume = arc_pair ex_inhibit \<and>
      arc_value ex_consume = 0 - 1 \<and> (0 - 5 :: int64) \<noteq> 0 - 1"
    by (simp add: arc_pair_def arc_nodes_def arc_value_def ex_consume_def ex_inhibit_def
        ex_p_def ex_t_def Node_IsPlace_def Node_IsTransition_def)
  from tx inh frz rest show ?thesis by blast
qed

section \<open>Freezing again\<close>

lemma Freeze_arc_slot:
  "Freeze_arc a g = Inr g0 \<longleftrightarrow> (\<exists>s. arc_slot g a = Some s \<and> g0 = store_slot s (arc_value a) g)"
  by (auto simp: Freeze_arc_Inr arc_slot_def split: option.splits sum.splits)

lemma arc_slot_store [simp]: "arc_slot (store_slot s v g) a = arc_slot g a"
  by (simp add: arc_slot_def split: option.splits)

lemma arc_slot_Some:
  "arc_slot g a = Some s \<longleftrightarrow>
     (\<exists>t p c q d. arc_nodes a = Some (t, p) \<and>
        Transition_ptr t = Some c \<and> c < length (transition_cells g) \<and>
        Place_ptr p = Some q \<and> q < length (place_cells g) \<and>
        Delta (transition_cells g ! c) = Some d \<and> d < length (delta_arrays g) \<and>
        Offset (place_cells g ! q) < length (delta_arrays g ! d) \<and>
        s = (d, Offset (place_cells g ! q)))"
proof (cases "arc_nodes a")
  case None
  then show ?thesis by (simp add: arc_slot_def)
next
  case (Some tp)
  obtain t p where tp: "tp = (t, p)" by (cases tp)
  have "arc_slot g a = Some s \<longleftrightarrow> delta_slot g t p = Inr s"
    by (auto simp: arc_slot_def Some tp split: sum.splits)
  then show ?thesis by (simp add: delta_slot_Inr Some tp)
qed

lemma Freeze_arcs_arc_slot: "Freeze_arcs as g = Inr g' \<Longrightarrow> arc_slot g' a = arc_slot g a"
proof (induction as arbitrary: g)
  case Nil
  then show ?case by simp
next
  case (Cons b as)
  from Cons.prems obtain g0 where
    step: "Freeze_arc b g = Inr g0" and rest: "Freeze_arcs as g0 = Inr g'"
    by (auto split: sum.splits)
  from step have "arc_slot g0 a = arc_slot g a" by (auto simp: Freeze_arc_slot)
  with Cons.IH[OF rest] show ?case by simp
qed

lemma Freeze_arcs_resolved:
  "Freeze_arcs as g = Inr g' \<Longrightarrow> a \<in> set as \<Longrightarrow> \<exists>s. arc_slot g a = Some s"
  using Freeze_arcs_resolve[of as g g' a] by (auto simp: arc_slot_def)

lemma Freeze_arcs_succeeds:
  "(\<forall>a\<in>set as. \<exists>s. arc_slot g a = Some s) \<Longrightarrow> \<exists>g'. Freeze_arcs as g = Inr g'"
proof (induction as arbitrary: g)
  case Nil
  then show ?case by simp
next
  case (Cons b as)
  from Cons.prems obtain s where s: "arc_slot g b = Some s" by auto
  then have step: "Freeze_arc b g = Inr (store_slot s (arc_value b) g)"
    by (simp add: Freeze_arc_slot)
  have "\<forall>a\<in>set as. \<exists>s'. arc_slot (store_slot s (arc_value b) g) a = Some s'"
    using Cons.prems by simp
  from Cons.IH[OF this] step show ?case by simp
qed

lemma Freeze_arcs_lengths:
  "Freeze_arcs as g = Inr g' \<Longrightarrow> length (delta_arrays g' ! d) = length (delta_arrays g ! d)"
proof (induction as arbitrary: g)
  case Nil
  then show ?case by simp
next
  case (Cons b as)
  from Cons.prems obtain g0 where
    step: "Freeze_arc b g = Inr g0" and rest: "Freeze_arcs as g0 = Inr g'"
    by (auto split: sum.splits)
  from step have "length (delta_arrays g0 ! d) = length (delta_arrays g ! d)"
    by (auto simp: Freeze_arc_slot)
  with Cons.IH[OF rest] show ?case by simp
qed

lemma store_slot_array:
  "d < length (delta_arrays g) \<Longrightarrow>
     delta_arrays (store_slot s v g) ! d =
       (if fst s = d then (delta_arrays g ! d)[snd s := v] else delta_arrays g ! d)"
  by (auto simp: store_slot_def)

lemma Freeze_arcs_content:
  "Freeze_arcs as g = Inr g' \<Longrightarrow> d < length (delta_arrays g) \<Longrightarrow>
     delta_arrays g' ! d = foldl (write_to g d) (delta_arrays g ! d) as"
proof (induction as arbitrary: g)
  case Nil
  then show ?case by simp
next
  case (Cons b as)
  from Cons.prems(1) obtain g0 where
    step: "Freeze_arc b g = Inr g0" and rest: "Freeze_arcs as g0 = Inr g'"
    by (auto split: sum.splits)
  from step obtain s where s: "arc_slot g b = Some s" and g0: "g0 = store_slot s (arc_value b) g"
    by (auto simp: Freeze_arc_slot)
  have first: "delta_arrays g0 ! d = write_to g d (delta_arrays g ! d) b"
    using Cons.prems(2) s g0 by (simp add: write_to_def store_slot_array)
  have same: "write_to g0 d = write_to g d"
    using g0 by (simp add: write_to_def fun_eq_iff)
  from Cons.prems(2) g0 have "d < length (delta_arrays g0)" by simp
  from Cons.IH[OF rest this] first same show ?case by simp
qed

lemma Freeze_alloc_succeeds:
  "(\<forall>c\<in>snd ` set kts. c < length (transition_cells g)) \<Longrightarrow> \<exists>g'. Freeze_alloc n kts g = Inr g'"
proof (induction kts arbitrary: g)
  case Nil
  then show ?case by simp
next
  case (Cons kt kts)
  obtain k t where kt: "kt = (k, t)" by (cases kt)
  with Cons.prems have t: "t < length (transition_cells g)" by simp
  define g0 where "g0 =
    g\<lparr>transition_cells :=
        (transition_cells g)[t := (transition_cells g ! t)\<lparr>Delta := Some (length (delta_arrays g))\<rparr>],
      delta_arrays := delta_arrays g @ [replicate n 0]\<rparr>"
  have "\<forall>c\<in>snd ` set kts. c < length (transition_cells g0)"
    using Cons.prems by (simp add: g0_def)
  from Cons.IH[OF this] obtain g' where "Freeze_alloc n kts g0 = Inr g'" by blast
  with t kt show ?case by (simp add: deref_def g0_def)
qed

text \<open>
  Heaps without dangling slices are what the package produces: the empty heap is one,
  and \<open>Place\<close>, \<open>Transition\<close> (given a transition whose slice is nil or exists) and
  \<open>Freeze\<close> keep the property.
\<close>

lemma heap_ok_empty: "heap_ok empty_heap"
  by (simp add: heap_ok_def empty_heap_def)

lemma heap_ok_Place:
  "heap_ok h \<Longrightarrow> MetaModel_Place label place m h = Inr (n, m', h') \<Longrightarrow> heap_ok h'"
  by (auto simp: Place_Inr heap_ok_def)

lemma heap_ok_Transition:
  assumes "heap_ok h" and "MetaModel_Transition label tr m h = Inr (n, m', h')"
    and "\<forall>d. Delta tr = Some d \<longrightarrow> d < length (delta_arrays h)"
  shows "heap_ok h'"
proof -
  from assms(2) have "h' = h\<lparr>transition_cells := transition_cells h @ [tr]\<rparr>"
    by (auto simp: MetaModel_Transition_def MetaModel_assertNotFrozen_def Let_def
        split: if_splits)
  with assms(1,3) show ?thesis by (auto simp: heap_ok_def)
qed

lemma heap_ok_Freeze:
  assumes ok: "heap_ok h" and frz: "MetaModel_Freeze m h = Inr (m', h')"
  shows "heap_ok h'"
proof -
  from frz obtain g where
    alloc: "Freeze_alloc (VectorSize m) (Transitions m) h = Inr g" and
    fold: "Freeze_arcs (arcs m) g = Inr h'"
    by (auto simp: MetaModel_Freeze_def split: sum.splits)
  note s = Freeze_alloc_shape[OF alloc]
  from s have len: "length (transition_cells g) = length (transition_cells h)"
    and arr: "length (delta_arrays g) = length (delta_arrays h) + length (Transitions m)"
    by simp_all
  have "d < length (delta_arrays g)"
    if c: "c < length (transition_cells g)" and d: "Delta (transition_cells g ! c) = Some d"
    for c d
  proof (cases "c \<in> snd ` set (Transitions m)")
    case True
    with s obtain d' where "Delta (transition_cells g ! c) = Some d'"
      "d' < length (delta_arrays h) + length (Transitions m)"
      by blast
    with d arr show ?thesis by simp
  next
    case False
    with s have same: "transition_cells g ! c = transition_cells h ! c" by blast
    from c len have "transition_cells h ! c \<in> set (transition_cells h)" by simp
    with ok d same have "d < length (delta_arrays h)" by (simp add: heap_ok_def)
    with arr show ?thesis by simp
  qed
  then have "heap_ok g" by (auto simp: heap_ok_def in_set_conv_nth)
  with Freeze_arcs_cells[OF fold] show ?thesis by (simp add: heap_ok_def)
qed

lemma write_to_Freeze_arcs:
  "Freeze_arcs as g = Inr g' \<Longrightarrow> write_to g' d = write_to g d"
  by (simp add: write_to_def fun_eq_iff Freeze_arcs_arc_slot)

lemma store_slot_lengths:
  "map length (delta_arrays (store_slot s v h)) = map length (delta_arrays h)"
  by (simp add: list_eq_iff_nth_eq)

lemma StateMachine_var_lengths:
  "StateMachine_var v net h = Inr (net', h') \<Longrightarrow>
     map length (delta_arrays h') = map length (delta_arrays h)"
  by (auto simp: StateMachine_var_def assertOK_def VarMap_GetVal_def store_delta_def
      store_slot_lengths split: varType.splits option.splits sum.splits)

lemma StateMachine_vars_lengths:
  "StateMachine_vars vs net h = Inr (net', h') \<Longrightarrow>
     map length (delta_arrays h') = map length (delta_arrays h)"
proof (induction vs arbitrary: net h)
  case Nil
  then show ?case by simp
next
  case (Cons v vs)
  from Cons.prems obtain net1 h1 where
    step: "StateMachine_var v net h = Inr (net1, h1)" and
    rest: "StateMachine_vars vs net1 h1 = Inr (net', h')"
    by (auto split: sum.splits)
  from Cons.IH[OF rest] StateMachine_var_lengths[OF step] show ?case by simp
qed

text \<open>
  C7 (as amended). \<open>Freeze\<close> has no frozen check. A call that succeeds gives every
  registered transition a newly allocated array, of length \<open>VectorSize\<close>, whose contents
  are the ledger folded over zeros. Let it be called again on the frozen model it
  returned, in a heap \<open>g\<close> that has the cells of the heap it returned and arrays of the
  same lengths, with any contents: whatever has been written into the deltas since (the
  overlay leaves such a heap), or nothing, \<open>g\<close> being the returned heap itself. The call
  succeeds and returns the same frozen model; the place cells are untouched; there is
  one more array for every registered transition, and each registered transition now
  has a new array with the ledger folded over zeros: the contents the first call gave
  it, not what \<open>g\<close> held. (The first heap is one without dangling slices.)
\<close>

theorem freeze_again_refolds_ledger:
  assumes frz: "MetaModel_Freeze m h = Inr (m1, h1)" and ok: "heap_ok h"
    and places: "place_cells g = place_cells h1"
    and cells: "transition_cells g = transition_cells h1"
    and lens: "map length (delta_arrays g) = map length (delta_arrays h1)"
  shows "\<exists>h2. MetaModel_Freeze m1 g = Inr (m1, h2) \<and> frozen m1 \<and>
           place_cells h2 = place_cells g \<and>
           length (delta_arrays h2) = length (delta_arrays g) + length (Transitions m1) \<and>
           (\<forall>c\<in>snd ` set (Transitions m1).
              \<exists>d1 d2 xs.
                 Delta (transition_cells h1 ! c) = Some d1 \<and> length (delta_arrays h) \<le> d1 \<and>
                 delta_arrays h1 ! d1 = xs \<and>
                 xs = foldl (write_to h1 d1) (replicate (VectorSize m1) 0) (arcs m1) \<and>
                 Delta (transition_cells h2 ! c) = Some d2 \<and> length (delta_arrays g) \<le> d2 \<and>
                 delta_arrays h2 ! d2 = xs \<and>
                 xs = foldl (write_to h2 d2) (replicate (VectorSize m1) 0) (arcs m1) \<and>
                 length xs = VectorSize m1 \<and>
                 delta_vector h1 c = Some xs \<and> delta_vector h2 c = Some xs)"
proof -
  define n where "n = VectorSize m"
  define T where "T = Transitions m"
  define A where "A = arcs m"
  define regs where "regs = snd ` set T"
  define zeros where "zeros = replicate n (0 :: int64)"
  define L where "L = length (delta_arrays h)"
  define k where "k = length T"
  from frz have m1: "m1 = m\<lparr>frozen := True\<rparr>" by (rule Freeze_Inr)
  from frz obtain g1 where
    alloc1: "Freeze_alloc n T h = Inr g1" and fold1: "Freeze_arcs A g1 = Inr h1"
    by (auto simp: MetaModel_Freeze_def n_def T_def A_def split: sum.splits)
  note s1 = Freeze_alloc_shape[OF alloc1, folded regs_def zeros_def L_def k_def]
  from Freeze_alloc_places[OF alloc1] have pc1: "place_cells g1 = place_cells h" .
  from Freeze_arcs_cells[OF fold1]
  have c1: "place_cells h1 = place_cells g1" "transition_cells h1 = transition_cells g1"
    "length (delta_arrays h1) = length (delta_arrays g1)"
    by simp_all
  from s1 have len1: "length (transition_cells g1) = length (transition_cells h)"
    and arr1: "delta_arrays g1 = delta_arrays h @ replicate k zeros"
    by simp_all
  from arr1 have L1: "length (delta_arrays g1) = L + k" by (simp add: L_def)
  from lens have "length (map length (delta_arrays g)) = length (map length (delta_arrays h1))"
    by simp
  then have Lg: "length (delta_arrays g) = L + k" using c1 L1 by simp
  have leng: "length (delta_arrays g ! d) = length (delta_arrays g1 ! d)" if "d < L + k" for d
  proof -
    from that Lg have "length (delta_arrays g ! d) = map length (delta_arrays g) ! d" by simp
    also from lens have "\<dots> = map length (delta_arrays h1) ! d" by simp
    also from that c1 L1 have "\<dots> = length (delta_arrays h1 ! d)" by simp
    also from Freeze_arcs_lengths[OF fold1] have "\<dots> = length (delta_arrays g1 ! d)" .
    finally show ?thesis .
  qed
  have valid: "\<forall>c\<in>snd ` set T. c < length (transition_cells g)"
    using s1 c1 len1 cells by (auto simp: regs_def)
  from Freeze_alloc_succeeds[OF valid] obtain g2 where alloc2: "Freeze_alloc n T g = Inr g2"
    by blast
  note s2 = Freeze_alloc_shape[OF alloc2, folded regs_def zeros_def k_def]
  from Freeze_alloc_places[OF alloc2] have pc2: "place_cells g2 = place_cells g" .
  from s2 have len2: "length (transition_cells g2) = length (transition_cells g)"
    and arr2: "delta_arrays g2 = delta_arrays g @ replicate k zeros"
    by simp_all
  from arr2 Lg have L2: "length (delta_arrays g2) = L + k + k" by simp
  have F1: "\<exists>d. Delta (transition_cells g1 ! c) = Some d \<and> L \<le> d \<and> d < L + k \<and>
              delta_arrays g1 ! d = zeros" if "c \<in> regs" for c
  proof -
    from s1 that obtain d where d: "Delta (transition_cells g1 ! c) = Some d" "L \<le> d" "d < L + k"
      by blast
    then have "delta_arrays g1 ! d = zeros" by (simp add: arr1 nth_append L_def)
    with d show ?thesis by blast
  qed
  have F2: "\<exists>d. Delta (transition_cells g2 ! c) = Some d \<and> L + k \<le> d \<and> d < L + k + k \<and>
              delta_arrays g2 ! d = zeros" if "c \<in> regs" for c
  proof -
    from s2 that Lg obtain d where
      d: "Delta (transition_cells g2 ! c) = Some d" "L + k \<le> d" "d < L + k + k"
      by auto
    then have "delta_arrays g2 ! d = zeros" using Lg by (simp add: arr2 nth_append)
    with d show ?thesis by blast
  qed
  have F3: "transition_cells g1 ! c = transition_cells h ! c \<and>
            transition_cells g2 ! c = transition_cells h ! c \<and>
            (\<forall>d. Delta (transition_cells h ! c) = Some d \<longrightarrow>
               d < L \<and> length (delta_arrays g2 ! d) = length (delta_arrays g1 ! d))"
    if "c \<notin> regs" "c < length (transition_cells h)" for c
  proof -
    from s1 that have a: "transition_cells g1 ! c = transition_cells h ! c" by blast
    from s2 that c1 cells a have b: "transition_cells g2 ! c = transition_cells h ! c" by simp
    have "d < L \<and> length (delta_arrays g2 ! d) = length (delta_arrays g1 ! d)"
      if d: "Delta (transition_cells h ! c) = Some d" for d
    proof -
      from \<open>c < length (transition_cells h)\<close> have "transition_cells h ! c \<in> set (transition_cells h)"
        by simp
      with ok d have dL: "d < L" by (auto simp: heap_ok_def L_def)
      with Lg have "delta_arrays g2 ! d = delta_arrays g ! d" by (simp add: arr2 nth_append)
      with leng[of d] dL show ?thesis by simp
    qed
    with a b show ?thesis by blast
  qed
  have per_arc: "\<exists>c off d1 d2. c < length (transition_cells h) \<and>
        arc_slot g1 a = Some (d1, off) \<and> arc_slot g2 a = Some (d2, off) \<and>
        Delta (transition_cells g1 ! c) = Some d1 \<and> Delta (transition_cells g2 ! c) = Some d2"
    if "a \<in> set A" for a
  proof -
    from Freeze_arcs_resolved[OF fold1 that] obtain s where "arc_slot g1 a = Some s" by blast
    then obtain t p c q d1 where
      nodes: "arc_nodes a = Some (t, p)" and
      c: "Transition_ptr t = Some c" "c < length (transition_cells g1)" and
      q: "Place_ptr p = Some q" "q < length (place_cells g1)" and
      d1: "Delta (transition_cells g1 ! c) = Some d1" "d1 < length (delta_arrays g1)" and
      off: "Offset (place_cells g1 ! q) < length (delta_arrays g1 ! d1)" and
      s: "s = (d1, Offset (place_cells g1 ! q))"
      by (auto simp: arc_slot_Some)
    have "\<exists>d2. Delta (transition_cells g2 ! c) = Some d2 \<and> d2 < length (delta_arrays g2) \<and>
            Offset (place_cells g1 ! q) < length (delta_arrays g2 ! d2)"
    proof (cases "c \<in> regs")
      case True
      from F1[OF True] d1 off have "Offset (place_cells g1 ! q) < length zeros" by auto
      with F2[OF True] L2 show ?thesis by auto
    next
      case False
      from F3[OF False] c len1 d1 L2 off show ?thesis by auto
    qed
    then obtain d2 where
      d2: "Delta (transition_cells g2 ! c) = Some d2" "d2 < length (delta_arrays g2)"
        "Offset (place_cells g1 ! q) < length (delta_arrays g2 ! d2)"
      by blast
    have "arc_slot g2 a = Some (d2, Offset (place_cells g1 ! q))"
      unfolding arc_slot_Some using nodes c q d2 pc2 c1 len1 len2 places cells by auto
    with \<open>arc_slot g1 a = Some s\<close> s c len1 d1 d2 show ?thesis by auto
  qed
  have "\<forall>a\<in>set A. \<exists>s. arc_slot g2 a = Some s"
    using per_arc by blast
  from Freeze_arcs_succeeds[OF this] obtain h2 where fold2: "Freeze_arcs A g2 = Inr h2"
    by blast
  from Freeze_arcs_cells[OF fold2]
  have c2: "place_cells h2 = place_cells g2" "transition_cells h2 = transition_cells g2"
    "length (delta_arrays h2) = length (delta_arrays g2)"
    by simp_all
  have again: "MetaModel_Freeze m1 g = Inr (m1, h2)"
    using alloc2 fold2 by (simp add: MetaModel_Freeze_def m1 n_def T_def A_def)
  have vectors: "\<exists>d1 d2 xs.
         Delta (transition_cells h1 ! c0) = Some d1 \<and> L \<le> d1 \<and>
         delta_arrays h1 ! d1 = xs \<and> xs = foldl (write_to h1 d1) zeros A \<and>
         Delta (transition_cells h2 ! c0) = Some d2 \<and> L + k \<le> d2 \<and>
         delta_arrays h2 ! d2 = xs \<and> xs = foldl (write_to h2 d2) zeros A \<and>
         length xs = n \<and> delta_vector h1 c0 = Some xs \<and> delta_vector h2 c0 = Some xs"
    if reg: "c0 \<in> regs" for c0
  proof -
    from F1[OF reg] obtain e1 where
      e1: "Delta (transition_cells g1 ! c0) = Some e1" "L \<le> e1" "e1 < L + k"
        "delta_arrays g1 ! e1 = zeros"
      by blast
    from F2[OF reg] obtain e2 where
      e2: "Delta (transition_cells g2 ! c0) = Some e2" "L + k \<le> e2" "e2 < L + k + k"
        "delta_arrays g2 ! e2 = zeros"
      by blast
    have same_write: "write_to g1 e1 xs a = write_to g2 e2 xs a" if "a \<in> set A" for xs a
    proof -
      from per_arc[OF that] obtain c off d1 d2 where
        c: "c < length (transition_cells h)" and
        sl: "arc_slot g1 a = Some (d1, off)" "arc_slot g2 a = Some (d2, off)" and
        d: "Delta (transition_cells g1 ! c) = Some d1" "Delta (transition_cells g2 ! c) = Some d2"
        by blast
      have "(d1 = e1) = (d2 = e2)"
      proof (cases "c \<in> regs")
        case True
        from s1 True reg d e1 have "d1 = e1 \<longleftrightarrow> c = c0" by (metis option.inject)
        moreover from s2 True reg d e2 have "d2 = e2 \<longleftrightarrow> c = c0" by (metis option.inject)
        ultimately show ?thesis by simp
      next
        case False
        from F3[OF False c] d have "d1 < L" "d2 < L" by auto
        with e1 e2 show ?thesis by simp
      qed
      with sl show ?thesis by (simp add: write_to_def)
    qed
    from e1 L1 have "e1 < length (delta_arrays g1)" by simp
    from Freeze_arcs_content[OF fold1 this] e1
    have v1: "delta_arrays h1 ! e1 = foldl (write_to g1 e1) zeros A" by simp
    from e2 L2 have "e2 < length (delta_arrays g2)" by simp
    from Freeze_arcs_content[OF fold2 this] e2
    have v2: "delta_arrays h2 ! e2 = foldl (write_to g2 e2) zeros A" by simp
    have "foldl (write_to g1 e1) zeros A = foldl (write_to g2 e2) zeros A"
      by (rule foldl_cong) (simp_all add: same_write)
    with v1 v2 have eq: "delta_arrays h2 ! e2 = delta_arrays h1 ! e1" by simp
    from Freeze_arcs_lengths[OF fold1, of e1] e1 have len: "length (delta_arrays h1 ! e1) = n"
      by (simp add: zeros_def)
    from v1 have w1: "delta_arrays h1 ! e1 = foldl (write_to h1 e1) zeros A"
      by (simp only: write_to_Freeze_arcs[OF fold1])
    from v2 eq have w2: "delta_arrays h1 ! e1 = foldl (write_to h2 e2) zeros A"
      by (simp only: write_to_Freeze_arcs[OF fold2])
    from e1 c1 have p1: "Delta (transition_cells h1 ! c0) = Some e1" by simp
    from e2 c2 have p2: "Delta (transition_cells h2 ! c0) = Some e2" by simp
    from p1 have dv1: "delta_vector h1 c0 = Some (delta_arrays h1 ! e1)"
      by (simp add: delta_vector_def)
    from p2 eq have dv2: "delta_vector h2 c0 = Some (delta_arrays h1 ! e1)"
      by (simp add: delta_vector_def)
    from p1 e1(2) w1 p2 e2(2) eq w2 len dv1 dv2 show ?thesis by blast
  qed
  have all: "\<forall>c\<in>snd ` set (Transitions m1).
              \<exists>d1 d2 xs.
                 Delta (transition_cells h1 ! c) = Some d1 \<and> length (delta_arrays h) \<le> d1 \<and>
                 delta_arrays h1 ! d1 = xs \<and>
                 xs = foldl (write_to h1 d1) (replicate (VectorSize m1) 0) (arcs m1) \<and>
                 Delta (transition_cells h2 ! c) = Some d2 \<and> length (delta_arrays g) \<le> d2 \<and>
                 delta_arrays h2 ! d2 = xs \<and>
                 xs = foldl (write_to h2 d2) (replicate (VectorSize m1) 0) (arcs m1) \<and>
                 length xs = VectorSize m1 \<and>
                 delta_vector h1 c = Some xs \<and> delta_vector h2 c = Some xs"
    using vectors by (simp add: m1 regs_def T_def n_def A_def zeros_def L_def Lg)
  from c2 pc2 have pl: "place_cells h2 = place_cells g" by simp
  from c2 L2 Lg have grow: "length (delta_arrays h2) = length (delta_arrays g) + length (Transitions m1)"
    by (simp add: m1 k_def T_def)
  from m1 have fr: "frozen m1" by simp
  from again fr pl grow all show ?thesis by blast
qed

lemma ex_produce_freeze:
  "MetaModel_Freeze (ex_model\<lparr>arcs := [ex_produce]\<rparr>) ex_heap =
     Inr (ex_model\<lparr>arcs := [ex_produce], frozen := True\<rparr>,
          ex_frozen_heap\<lparr>delta_arrays := [[3]]\<rparr>)"
  by (simp add: MetaModel_Freeze_def Freeze_arc_def delta_slot_def slice_slot_def
      deref_ptr_def deref_def store_slot_def Node_IsPlace_def Node_IsTransition_def
      ex_model_def ex_heap_def ex_frozen_heap_def ex_p_def ex_t_def ex_place_def
      ex_produce_def)

lemma ex_produce_refreeze:
  "MetaModel_Freeze (ex_model\<lparr>arcs := [ex_produce], frozen := True\<rparr>)
       (ex_frozen_heap\<lparr>delta_arrays := [[2]]\<rparr>) =
     Inr (ex_model\<lparr>arcs := [ex_produce], frozen := True\<rparr>,
          \<lparr>place_cells = [ex_place], transition_cells = [ex_transition\<lparr>Delta := Some 1\<rparr>],
           delta_arrays = [[2], [3]]\<rparr>)"
  by (simp add: MetaModel_Freeze_def Freeze_arc_def delta_slot_def slice_slot_def
      deref_ptr_def deref_def store_slot_def Node_IsPlace_def Node_IsTransition_def
      ex_model_def ex_frozen_heap_def ex_p_def ex_t_def ex_place_def ex_produce_def)

theorem freeze_again_refolds_ledger_witness:
  "heap_ok ex_heap \<and>
   MetaModel_Freeze (ex_model\<lparr>arcs := [ex_produce]\<rparr>) ex_heap =
     Inr (ex_model\<lparr>arcs := [ex_produce], frozen := True\<rparr>,
          ex_frozen_heap\<lparr>delta_arrays := [[3]]\<rparr>) \<and>
   MetaModel_Freeze (ex_model\<lparr>arcs := [ex_produce], frozen := True\<rparr>)
       (ex_frozen_heap\<lparr>delta_arrays := [[2]]\<rparr>) =
     Inr (ex_model\<lparr>arcs := [ex_produce], frozen := True\<rparr>,
          \<lparr>place_cells = [ex_place], transition_cells = [ex_transition\<lparr>Delta := Some 1\<rparr>],
           delta_arrays = [[2], [3]]\<rparr>) \<and>
   delta_vector (ex_frozen_heap\<lparr>delta_arrays := [[2]]\<rparr>) 0 = Some [2] \<and>
   delta_vector (ex_frozen_heap\<lparr>delta_arrays := [[3]]\<rparr>) 0 =
     delta_vector \<lparr>place_cells = [ex_place], transition_cells = [ex_transition\<lparr>Delta := Some 1\<rparr>],
                   delta_arrays = [[2], [3]]\<rparr> 0"
proof -
  let ?m1 = "ex_model\<lparr>arcs := [ex_produce], frozen := True\<rparr>"
  let ?h1 = "ex_frozen_heap\<lparr>delta_arrays := [[3]]\<rparr>"
  let ?g = "ex_frozen_heap\<lparr>delta_arrays := [[2]]\<rparr>"
  let ?h2 = "\<lparr>place_cells = [ex_place], transition_cells = [ex_transition\<lparr>Delta := Some 1\<rparr>],
             delta_arrays = [[2], [3]]\<rparr>"
  have ok: "heap_ok ex_heap"
    by (simp add: heap_ok_def ex_heap_def ex_transition_def)
  have shape: "place_cells ?g = place_cells ?h1" "transition_cells ?g = transition_cells ?h1"
    "map length (delta_arrays ?g) = map length (delta_arrays ?h1)"
    by simp_all
  from freeze_again_refolds_ledger[OF ex_produce_freeze ok shape] obtain h2 where
    again: "MetaModel_Freeze ?m1 ?g = Inr (?m1, h2)" and
    every: "\<forall>c\<in>snd ` set (Transitions ?m1).
              \<exists>d1 d2 xs.
                 Delta (transition_cells ?h1 ! c) = Some d1 \<and> length (delta_arrays ex_heap) \<le> d1 \<and>
                 delta_arrays ?h1 ! d1 = xs \<and>
                 xs = foldl (write_to ?h1 d1) (replicate (VectorSize ?m1) 0) (arcs ?m1) \<and>
                 Delta (transition_cells h2 ! c) = Some d2 \<and> length (delta_arrays ?g) \<le> d2 \<and>
                 delta_arrays h2 ! d2 = xs \<and>
                 xs = foldl (write_to h2 d2) (replicate (VectorSize ?m1) 0) (arcs ?m1) \<and>
                 length xs = VectorSize ?m1 \<and>
                 delta_vector ?h1 c = Some xs \<and> delta_vector h2 c = Some xs"
    by (elim exE conjE) (rule that)
  from again ex_produce_refreeze have h2: "h2 = ?h2" by simp
  have "0 \<in> snd ` set (Transitions ?m1)" by (simp add: ex_model_def)
  with every have "\<exists>d1 d2 xs.
                 Delta (transition_cells ?h1 ! 0) = Some d1 \<and> length (delta_arrays ex_heap) \<le> d1 \<and>
                 delta_arrays ?h1 ! d1 = xs \<and>
                 xs = foldl (write_to ?h1 d1) (replicate (VectorSize ?m1) 0) (arcs ?m1) \<and>
                 Delta (transition_cells h2 ! 0) = Some d2 \<and> length (delta_arrays ?g) \<le> d2 \<and>
                 delta_arrays h2 ! d2 = xs \<and>
                 xs = foldl (write_to h2 d2) (replicate (VectorSize ?m1) 0) (arcs ?m1) \<and>
                 length xs = VectorSize ?m1 \<and>
                 delta_vector ?h1 0 = Some xs \<and> delta_vector h2 0 = Some xs"
    by (rule bspec)
  then obtain xs where "delta_vector ?h1 0 = Some xs" "delta_vector h2 0 = Some xs"
    by (elim exE conjE) (rule that)
  with h2 have eq: "delta_vector ?h1 0 = delta_vector ?h2 0" by simp
  have before: "delta_vector ?g 0 = Some [2]"
    by (simp add: delta_vector_def ex_frozen_heap_def)
  show ?thesis
    by (intro conjI) (fact ok ex_produce_freeze ex_produce_refreeze before eq)+
qed

text \<open>
  The claim as stated fails once an overlay has written a weight: \<open>StateMachine\<close>
  leaves the frozen model with the delta \<open>[2]\<close> for \<open>t\<close>, and \<open>Freeze\<close> called on that
  frozen model replaces it by \<open>[3]\<close>, the weight of the arc in the ledger.
\<close>

theorem freeze_resets_weight_overlay_counterexample:
  "instance_StateMachine (ex_model\<lparr>arcs := [ex_produce], vars := [ex_weight_var]\<rparr>) ex_heap =
     Inr (ex_net,
          ex_model\<lparr>arcs := [ex_produce], vars := [ex_weight_var], frozen := True\<rparr>,
          ex_frozen_heap\<lparr>delta_arrays := [[2]]\<rparr>) \<and>
   frozen (ex_model\<lparr>arcs := [ex_produce], vars := [ex_weight_var], frozen := True\<rparr>) \<and>
   MetaModel_Freeze (ex_model\<lparr>arcs := [ex_produce], vars := [ex_weight_var], frozen := True\<rparr>)
       (ex_frozen_heap\<lparr>delta_arrays := [[2]]\<rparr>) =
     Inr (ex_model\<lparr>arcs := [ex_produce], vars := [ex_weight_var], frozen := True\<rparr>,
          \<lparr>place_cells = [ex_place], transition_cells = [ex_transition\<lparr>Delta := Some 1\<rparr>],
           delta_arrays = [[2], [3]]\<rparr>) \<and>
   delta_vector (ex_frozen_heap\<lparr>delta_arrays := [[2]]\<rparr>) 0 = Some [2] \<and>
   delta_vector \<lparr>place_cells = [ex_place], transition_cells = [ex_transition\<lparr>Delta := Some 1\<rparr>],
                 delta_arrays = [[2], [3]]\<rparr> 0 = Some [3]"
proof -
  have overlay:
    "instance_StateMachine (ex_model\<lparr>arcs := [ex_produce], vars := [ex_weight_var]\<rparr>) ex_heap =
     Inr (ex_net,
          ex_model\<lparr>arcs := [ex_produce], vars := [ex_weight_var], frozen := True\<rparr>,
          ex_frozen_heap\<lparr>delta_arrays := [[2]]\<rparr>)"
    by (simp add: instance_StateMachine_def MetaModel_Freeze_def MetaModel_PTNet_def
        Freeze_arc_def delta_slot_def slice_slot_def deref_ptr_def deref_def store_slot_def
        store_delta_def StateMachine_var_def VarMap_Type_def VarMap_GetVal_def assertOK_def
        Node_IsPlace_def Node_IsTransition_def
        ex_model_def ex_heap_def ex_frozen_heap_def ex_net_def ex_p_def ex_t_def ex_place_def
        ex_produce_def ex_weight_var_def)
  have again:
    "MetaModel_Freeze (ex_model\<lparr>arcs := [ex_produce], vars := [ex_weight_var], frozen := True\<rparr>)
       (ex_frozen_heap\<lparr>delta_arrays := [[2]]\<rparr>) =
     Inr (ex_model\<lparr>arcs := [ex_produce], vars := [ex_weight_var], frozen := True\<rparr>,
          \<lparr>place_cells = [ex_place], transition_cells = [ex_transition\<lparr>Delta := Some 1\<rparr>],
           delta_arrays = [[2], [3]]\<rparr>)"
    by (simp add: MetaModel_Freeze_def Freeze_arc_def delta_slot_def slice_slot_def
        deref_ptr_def deref_def store_slot_def Node_IsPlace_def Node_IsTransition_def
        ex_model_def ex_frozen_heap_def ex_p_def ex_t_def ex_place_def ex_produce_def)
  have vectors:
    "delta_vector (ex_frozen_heap\<lparr>delta_arrays := [[2]]\<rparr>) 0 = Some [2] \<and>
     delta_vector \<lparr>place_cells = [ex_place], transition_cells = [ex_transition\<lparr>Delta := Some 1\<rparr>],
                   delta_arrays = [[2], [3]]\<rparr> 0 = Some [3]"
    by (simp add: delta_vector_def ex_frozen_heap_def)
  from overlay again vectors show ?thesis by simp
qed

section \<open>Export, import, export\<close>

















text \<open>The maps of a model list every key once: \<open>New\<close>, \<open>Place\<close>, \<open>Transition\<close>, \<open>Freeze\<close>.\<close>

lemma registry_keys_distinct:
  "distinct (map fst (Places (New schema))) \<and> distinct (map fst (Transitions (New schema)))"
  "distinct (map fst (Places m)) \<and> distinct (map fst (Transitions m)) \<Longrightarrow>
     MetaModel_Place label place m h = Inr (n, m', h') \<Longrightarrow>
     distinct (map fst (Places m')) \<and> distinct (map fst (Transitions m'))"
  "distinct (map fst (Places m)) \<and> distinct (map fst (Transitions m)) \<Longrightarrow>
     MetaModel_Transition label tr m h = Inr (n, m', h') \<Longrightarrow>
     distinct (map fst (Places m')) \<and> distinct (map fst (Transitions m'))"
  "distinct (map fst (Places m)) \<and> distinct (map fst (Transitions m)) \<Longrightarrow>
     MetaModel_Freeze m h = Inr (m', h') \<Longrightarrow>
     distinct (map fst (Places m')) \<and> distinct (map fst (Transitions m'))"
  by (auto simp: New_def MetaModel_Place_def MetaModel_Transition_def
      MetaModel_assertNotFrozen_def Let_def distinct_update
      split: if_splits dest: Freeze_Inr)






end
